theory Spec2Isabelle
  imports Complex_Main
begin

section \<open>Python values used by the generator\<close>

text \<open>
  A Python \<^verbatim>\<open>str\<close> is a sequence of Unicode code points, so it is modelled as a list of
  natural numbers; \<open>py\<close> embeds an ASCII literal. The full stop tested by
  \<^verbatim>\<open>generate_batch_base\<close> is the ideographic full stop U+3002 (code point 12290).
\<close>

type_synonym pystr = "nat list"

definition py :: "string \<Rightarrow> pystr" where
  "py s = map of_char s"

definition ideographic_full_stop :: pystr where
  "ideographic_full_stop = [12290]"

text \<open>\<^verbatim>\<open>str.isspace\<close> on one code point: the Unicode white space characters.\<close>

definition py_isspace :: "nat \<Rightarrow> bool" where
  "py_isspace c =
     (c \<in> set ([9, 10, 11, 12, 13, 28, 29, 30, 31, 32, 133, 160, 5760]
               @ [8192 ..< 8203] @ [8232, 8233, 8239, 8287, 12288]))"

text \<open>\<^verbatim>\<open>str.strip()\<close> removes white space at both ends.\<close>

definition py_strip :: "pystr \<Rightarrow> pystr" where
  "py_strip s = rev (dropWhile py_isspace (rev (dropWhile py_isspace s)))"

text \<open>\<^verbatim>\<open>s.endswith(suf)\<close>.\<close>

definition py_endswith :: "pystr \<Rightarrow> pystr \<Rightarrow> bool" where
  "py_endswith s suf = (length suf \<le> length s \<and> drop (length s - length suf) s = suf)"

datatype error = IndexError | AttributeError | ValueError | OverflowError | TypeError

section \<open>The seed of the web UI entry point\<close>

text \<open>
  \<^verbatim>\<open>tts_generate\<close> (webui_utils.py) receives \<^verbatim>\<open>infer_seed\<close> from a number widget: a Python
  \<^verbatim>\<open>int\<close> or a \<^verbatim>\<open>float\<close>. A float is finite, an infinity or NaN.
\<close>

datatype float64 = Finite real | PosInf | NegInf | NaN

datatype pynum = PyInt int | PyFloat float64

text \<open>Truth value of a number, as used by \<^verbatim>\<open>infer_seed or params.get("seed", infer_seed)\<close>.\<close>

fun truthy :: "pynum \<Rightarrow> bool" where
  "truthy (PyInt i) = (i \<noteq> 0)"
| "truthy (PyFloat (Finite r)) = (r \<noteq> 0)"
| "truthy (PyFloat _) = True"

text \<open>
  \<^verbatim>\<open>infer_seed or params.get("seed", infer_seed)\<close>: \<open>params_seed\<close> is the entry
  \<^verbatim>\<open>"seed"\<close> of the dictionary returned by \<^verbatim>\<open>calc_spk_style\<close>, when it has one.
\<close>

definition seed_or_params :: "pynum \<Rightarrow> pynum option \<Rightarrow> pynum" where
  "seed_or_params infer_seed params_seed =
     (if truthy infer_seed then infer_seed
      else (case params_seed of None \<Rightarrow> infer_seed | Some s \<Rightarrow> s))"

text \<open>
  \<^verbatim>\<open>np.clip(x, lo, hi, out=None, dtype=np.float64)\<close>, that is \<^verbatim>\<open>minimum(maximum(x, lo), hi)\<close>
  computed in \<^verbatim>\<open>float64\<close>. numpy first makes its argument an array: a Python \<^verbatim>\<open>int\<close> becomes a
  64-bit integer, signed or unsigned, when it fits one, and an object otherwise, which
  the \<^verbatim>\<open>float64\<close> computation refuses with a TypeError. The conversion of a 64-bit integer
  to \<^verbatim>\<open>float64\<close> is monotone and exact on every integer between the two bounds used here,
  which are themselves exact, so clipping the real value gives the value numpy computes.
\<close>

fun np_clip :: "pynum \<Rightarrow> real \<Rightarrow> real \<Rightarrow> error + float64" where
  "np_clip (PyInt i) lo hi =
     (if - (2 ^ 63) \<le> i \<and> i < 2 ^ 64 then Inr (Finite (min (max (real_of_int i) lo) hi))
      else Inl TypeError)"
| "np_clip (PyFloat (Finite r)) lo hi = Inr (Finite (min (max r lo) hi))"
| "np_clip (PyFloat PosInf) lo hi = Inr (Finite hi)"
| "np_clip (PyFloat NegInf) lo hi = Inr (Finite (min lo hi))"
| "np_clip (PyFloat NaN) lo hi = Inr NaN"

text \<open>\<^verbatim>\<open>int(x)\<close> on a float truncates towards zero; it raises ValueError on NaN and OverflowError on an infinity.\<close>

fun py_int :: "float64 \<Rightarrow> error + int" where
  "py_int (Finite r) = Inr (if 0 \<le> r then \<lfloor>r\<rfloor> else - \<lfloor>- r\<rfloor>)"
| "py_int NaN = Inl ValueError"
| "py_int _ = Inl OverflowError"

text \<open>Lines 202, 208 and 209 of \<^verbatim>\<open>tts_generate\<close>: the value given to \<^verbatim>\<open>InferConfig(seed=...)\<close>.\<close>

definition tts_generate_infer_seed :: "pynum \<Rightarrow> pynum option \<Rightarrow> error + int" where
  "tts_generate_infer_seed infer_seed params_seed =
     (case np_clip (seed_or_params infer_seed params_seed) (- 1) (2 ^ 32 - 1) of
        Inl e \<Rightarrow> Inl e
      | Inr clipped \<Rightarrow> py_int clipped)"

text \<open>
  What clamping a number into the interval from -1 to 2^32 - 1 is expected to give: the
  number itself when it is an integer of the interval, the nearer bound when it lies
  outside, and, for a float with a fraction, the integer next to it towards zero.
\<close>

fun clamped_seed :: "pynum \<Rightarrow> int" where
  "clamped_seed (PyInt i) = max (- 1) (min (2 ^ 32 - 1) i)"
| "clamped_seed (PyFloat (Finite r)) =
     (if r \<le> - 1 then - 1 else if 2 ^ 32 - 1 \<le> r then 2 ^ 32 - 1
      else if 0 \<le> r then \<lfloor>r\<rfloor> else \<lceil>r\<rceil>)"
| "clamped_seed (PyFloat PosInf) = 2 ^ 32 - 1"
| "clamped_seed (PyFloat NegInf) = - 1"
| "clamped_seed (PyFloat NaN) = 0"

text \<open>The numbers numpy clips: a float other than NaN, or an integer that fits 64 bits.\<close>

fun clippable :: "pynum \<Rightarrow> bool" where
  "clippable (PyInt i) = (- (2 ^ 63) \<le> i \<and> i < 2 ^ 64)"
| "clippable (PyFloat NaN) = False"
| "clippable (PyFloat _) = True"

section \<open>Segments, speakers and the pipeline context\<close>

text \<open>
  The reference entry returned by \<^verbatim>\<open>spk.get_ref\<close>: \<^verbatim>\<open>get_ref_wav\<close> reads its fields
  \<^verbatim>\<open>wav\<close>, \<^verbatim>\<open>wav_sr\<close>, \<^verbatim>\<open>text\<close> and \<^verbatim>\<open>emotion\<close>. The type \<open>'w\<close> is the encoded audio.
\<close>

record 'w ref_data =
  wav :: 'w
  wav_sr :: nat
  ref_text :: pystr
  ref_emotion :: pystr

text \<open>
  A speaker is used through \<^verbatim>\<open>get_ref(predicate)\<close> only; the lookup itself belongs to the
  speaker store, so it is a field.
\<close>

record 'w TTSSpeaker =
  get_ref :: "('w ref_data \<Rightarrow> bool) \<Rightarrow> 'w ref_data option"

record 'w TTSSegment =
  seg_text :: pystr
  temperature :: real
  top_p :: real
  top_k :: int
  infer_seed :: int
  prompt1 :: pystr
  prompt2 :: pystr
  prefix :: pystr
  emotion :: pystr
  spk :: "'w TTSSpeaker option"

record InferConfig =
  stream_chunk_size :: int

record TTSPipelineContext =
  infer_config :: InferConfig

text \<open>
  The backend returns, for each text, \<^verbatim>\<open>None\<close> or a two-dimensional array (channels, then
  samples): a list of rows. \<^verbatim>\<open>NP_AUDIO\<close> is a pair of a sample rate and a one-dimensional array.
\<close>

type_synonym 'a ndarray = "'a list list"

type_synonym 'a NP_AUDIO = "nat \<times> 'a list"

text \<open>\<^verbatim>\<open>data.size\<close>: the number of elements.\<close>

definition nd_size :: "'a ndarray \<Rightarrow> nat" where
  "nd_size d = sum_list (map length d)"

text \<open>\<^verbatim>\<open>data[0]\<close>: the first row; IndexError when there is none.\<close>

definition index0 :: "'a ndarray \<Rightarrow> error + 'a list" where
  "index0 d = (case d of [] \<Rightarrow> Inl IndexError | ch # _ \<Rightarrow> Inr ch)"

text \<open>A list comprehension whose element expression may raise: the first error wins.\<close>

fun collect :: "(error + 'b) list \<Rightarrow> error + 'b list" where
  "collect [] = Inr []"
| "collect (Inl e # _) = Inl e"
| "collect (Inr x # xs) = (case collect xs of Inl e \<Rightarrow> Inl e | Inr ys \<Rightarrow> Inr (x # ys))"

section \<open>The inference backend and its collaborators\<close>

text \<open>
  The keyword arguments of a backend call, in the order the call site writes them. A value
  is \<^verbatim>\<open>None\<close>, a string, the list of texts, a number, a speaker embedding (\<open>'e\<close>) or an
  encoded speaker sample (\<open>'s\<close>).
\<close>

datatype ('e, 's) pyval =
  VNone | VStr pystr | VStrList "pystr list" | VFloat real | VInt int | VEmb 'e | VSmp 's

type_synonym ('e, 's) kwargs = "(string \<times> ('e, 's) pyval) list"

text \<open>
  What the generator calls but does not define: the cache methods of \<^verbatim>\<open>TTSModel\<close>
  (over a cache store \<open>'c\<close>), \<^verbatim>\<open>get_spk_emb\<close>, the audio utilities, and the two generation
  entry points of \<^verbatim>\<open>ChatTTSInfer\<close>. The first argument of a generation entry point is the
  seed of the enclosing \<^verbatim>\<open>SeedContext\<close>; a streaming call returns the batches it would yield
  until it is exhausted.
\<close>

record ('a, 'e, 's, 'w, 'c) env =
  get_cache :: "'c \<Rightarrow> 'w TTSSegment list \<Rightarrow> TTSPipelineContext \<Rightarrow> 'a NP_AUDIO list option"
  set_cache :: "'c \<Rightarrow> 'w TTSSegment list \<Rightarrow> TTSPipelineContext \<Rightarrow> 'a NP_AUDIO list option \<Rightarrow> 'c"
  get_spk_emb :: "'w TTSSegment \<Rightarrow> TTSPipelineContext \<Rightarrow> 'e option"
  bytes_to_librosa_array :: "'w \<Rightarrow> nat \<Rightarrow> 'a list"
  normalize_audio :: "nat \<times> 'a list \<Rightarrow> nat \<Rightarrow> nat \<times> 'a list"
  sample_audio_speaker :: "'a list \<Rightarrow> 's"
  generate_audio :: "int \<Rightarrow> ('e, 's) kwargs \<Rightarrow> 'a ndarray option list"
  generate_audio_stream :: "int \<Rightarrow> ('e, 's) kwargs \<Rightarrow> 'a ndarray option list list"

section \<open>The model object\<close>

datatype Chat = Chat

text \<open>
  A backend invocation as a capturing test double records it: the entry point, the seed of
  the \<^verbatim>\<open>SeedContext\<close> around it, and the keyword arguments.
\<close>

datatype ('e, 's) backend_call =
  GenerateAudio int "('e, 's) kwargs" | GenerateAudioStream int "('e, 's) kwargs"

text \<open>
  The fields of \<^verbatim>\<open>ChatTTSModel\<close>. \<^verbatim>\<open>ChatTTSInfer\<close> objects are numbered in the order
  \<^verbatim>\<open>get_infer\<close> creates them; \<open>interrupted\<close> lists the objects whose \<^verbatim>\<open>interrupt()\<close> ran and
  \<open>calls\<close> the backend invocations, oldest first.
\<close>

record ('e, 's, 'c) ChatTTSModel =
  chat :: "Chat option"
  current_infer :: "nat option"
  infers_created :: nat
  interrupted :: "nat list"
  cache :: 'c
  calls :: "('e, 's) backend_call list"

text \<open>\<^verbatim>\<open>__init__\<close>, with the class attribute \<^verbatim>\<open>current_infer = None\<close>.\<close>

definition init :: "'c \<Rightarrow> ('e, 's, 'c) ChatTTSModel" where
  "init c = \<lparr>chat = None, current_infer = None, infers_created = 0, interrupted = [],
             cache = c, calls = []\<rparr>"

definition is_loaded :: "('e, 's, 'c) ChatTTSModel \<Rightarrow> bool" where
  "is_loaded self = (chat self \<noteq> None)"

definition load :: "('e, 's, 'c) ChatTTSModel \<Rightarrow> ('e, 's, 'c) ChatTTSModel" where
  "load self = self\<lparr>chat := Some Chat\<rparr>"

text \<open>\<^verbatim>\<open>get_infer\<close>: \<^verbatim>\<open>ChatTTSInfer(self.load())\<close>, a new object.\<close>

definition get_infer ::
  "('e, 's, 'c) ChatTTSModel \<Rightarrow> nat \<times> ('e, 's, 'c) ChatTTSModel" where
  "get_infer self =
     (let self1 = load self
      in (infers_created self1, self1\<lparr>infers_created := Suc (infers_created self1)\<rparr>))"

text \<open>Lines 105 and 106: a new backend object, recorded as the current one.\<close>

definition start_infer :: "('e, 's, 'c) ChatTTSModel \<Rightarrow> ('e, 's, 'c) ChatTTSModel" where
  "start_infer self = (let (infer, self1) = get_infer self in self1\<lparr>current_infer := Some infer\<rparr>)"

text \<open>\<^verbatim>\<open>interrupt\<close>: \<^verbatim>\<open>self.current_infer.interrupt()\<close>; on \<^verbatim>\<open>None\<close> the attribute lookup raises.\<close>

definition interrupt ::
  "('e, 's, 'c) ChatTTSModel \<Rightarrow> (error + unit) \<times> ('e, 's, 'c) ChatTTSModel" where
  "interrupt self =
     (case current_infer self of
        None \<Rightarrow> (Inl AttributeError, self)
      | Some i \<Rightarrow> (Inr (), self\<lparr>interrupted := interrupted self @ [i]\<rparr>))"

section \<open>Preparing the backend call\<close>

text \<open>\<^verbatim>\<open>get_ref_wav\<close>: the reference waveform, brought to 24 kHz, and its transcript.\<close>

definition get_ref_wav ::
  "('a, 'e, 's, 'w, 'c) env \<Rightarrow> 'w TTSSegment \<Rightarrow> 'a list option \<times> pystr option" where
  "get_ref_wav env segment =
     (case spk segment of
        None \<Rightarrow> (None, None)
      | Some sp \<Rightarrow>
          (case get_ref sp (\<lambda>x. ref_emotion x = emotion segment) of
             None \<Rightarrow> (None, None)
           | Some rd \<Rightarrow>
               (let w = bytes_to_librosa_array env (wav rd) (wav_sr rd);
                    w24 = snd (normalize_audio env (wav_sr rd, w) 24000)
                in (Some w24, Some (ref_text rd)))))"

text \<open>Lines 126 to 129: the content prompt between the delimiter tokens.\<close>

definition prompt_prefix :: pystr where
  "prompt_prefix = py ''[Ptts][Ptts][Ptts] ''"

definition prompt_suffix :: pystr where
  "prompt_suffix = py '' [Stts][Ptts][Stts][Ptts][Stts]''"

definition wrap_prompt2 :: "pystr \<Rightarrow> pystr" where
  "wrap_prompt2 p = (if py_strip p \<noteq> [] then prompt_prefix @ p @ prompt_suffix else p)"

text \<open>Lines 133 and 134: \<^verbatim>\<open>if txt_smp and not txt_smp.endswith(...)\<close>.\<close>

definition terminate_txt_smp :: "pystr option \<Rightarrow> pystr option" where
  "terminate_txt_smp txt_smp =
     (case txt_smp of
        None \<Rightarrow> None
      | Some t \<Rightarrow>
          (if t \<noteq> [] \<and> \<not> py_endswith t ideographic_full_stop
           then Some (t @ ideographic_full_stop) else Some t))"

definition opt_val :: "('x \<Rightarrow> ('e, 's) pyval) \<Rightarrow> 'x option \<Rightarrow> ('e, 's) pyval" where
  "opt_val f x = (case x of None \<Rightarrow> VNone | Some v \<Rightarrow> f v)"

text \<open>
  Lines 108 to 134 and the argument list shared by both call sites (lines 141 to 150 and
  166 to 175).
\<close>

definition infer_kwargs ::
  "('a, 'e, 's, 'w, 'c) env \<Rightarrow> 'w TTSSegment \<Rightarrow> 'w TTSSegment list \<Rightarrow> TTSPipelineContext
     \<Rightarrow> ('e, 's) kwargs" where
  "infer_kwargs env seg0 segments context =
     (let texts = map seg_text segments;
          spk_emb = (case spk seg0 of None \<Rightarrow> None | Some _ \<Rightarrow> get_spk_emb env seg0 context);
          (spk_wav, txt_smp) = get_ref_wav env seg0;
          spk_smp = (case spk_wav of None \<Rightarrow> None | Some w \<Rightarrow> Some (sample_audio_speaker env w));
          txt_smp' = terminate_txt_smp txt_smp
      in [(''text'', VStrList texts),
          (''spk_emb'', (case spk_smp of None \<Rightarrow> opt_val VEmb spk_emb | Some _ \<Rightarrow> VNone)),
          (''spk_smp'', opt_val VSmp spk_smp),
          (''txt_smp'', opt_val VStr txt_smp'),
          (''top_P'', VFloat (top_p seg0)),
          (''top_K'', VInt (top_k seg0)),
          (''temperature'', VFloat (temperature seg0)),
          (''prompt1'', VStr (prompt1 seg0)),
          (''prompt2'', VStr (wrap_prompt2 (prompt2 seg0))),
          (''prefix'', VStr (prefix seg0))])"

section \<open>Post-processing of backend results\<close>

definition sr :: nat where
  "sr = 24000"

text \<open>Line 154: one slot of the non-streaming result.\<close>

definition slot_batch :: "'a ndarray option \<Rightarrow> error + 'a NP_AUDIO" where
  "slot_batch data =
     (case data of
        None \<Rightarrow> Inr (sr, [])
      | Some d \<Rightarrow> (case index0 d of Inl e \<Rightarrow> Inl e | Inr ch \<Rightarrow> Inr (sr, ch)))"

text \<open>Lines 179 to 185: one slot of a streamed batch.\<close>

definition slot_stream :: "'a ndarray option \<Rightarrow> error + 'a list" where
  "slot_stream data =
     (case data of
        None \<Rightarrow> Inr []
      | Some d \<Rightarrow> (if nd_size d = 0 then Inr [] else index0 d))"

text \<open>
  Lines 194 to 197: the loop over \<^verbatim>\<open>enumerate(results)\<close> that appends each chunk to the
  buffer slot of its index; a slot the buffer does not have raises IndexError.
\<close>

fun accumulate ::
  "'a NP_AUDIO list \<Rightarrow> nat \<Rightarrow> 'a list list \<Rightarrow> error + 'a NP_AUDIO list" where
  "accumulate buff i [] = Inr buff"
| "accumulate buff i (data # rest) =
     (if i < length buff
      then (let (sr1, before) = buff ! i
            in accumulate (buff[i := (sr1, before @ data)]) (Suc i) rest)
      else Inl IndexError)"

section \<open>Generators\<close>

text \<open>
  What the generator of the streaming path has captured, and where its body is suspended:
  not started, at the \<^verbatim>\<open>yield\<close> (with the rest of the backend stream, the buffer, and the
  \<^verbatim>\<open>results\<close> of the batch just yielded), or finished.
\<close>

record ('e, 's, 'w) closure =
  g_seed :: int
  g_kwargs :: "('e, 's) kwargs"
  g_segments :: "'w TTSSegment list"
  g_context :: TTSPipelineContext

datatype 'a frame =
  Start
| AtYield "'a ndarray option list list" "'a NP_AUDIO list option" "'a list list"
| Finished

datatype ('a, 'e, 's, 'w) generator =
  CachedGen "'a NP_AUDIO list" bool
| StreamGen "('e, 's, 'w) closure" "'a frame"

datatype 'v signal = Yield 'v | StopIteration | Raise error

text \<open>
  The head of the \<^verbatim>\<open>for\<close> loop of the streaming generator: with the backend stream
  exhausted the buffer is written to the cache (line 198) and the generator ends;
  otherwise the next batch is post-processed and yielded.
\<close>

definition loop_head ::
  "('a, 'e, 's, 'w, 'c) env \<Rightarrow> ('e, 's, 'w) closure \<Rightarrow> 'a ndarray option list list
     \<Rightarrow> 'a NP_AUDIO list option \<Rightarrow> ('e, 's, 'c) ChatTTSModel
     \<Rightarrow> 'a NP_AUDIO list signal \<times> ('a, 'e, 's, 'w) generator \<times> ('e, 's, 'c) ChatTTSModel" where
  "loop_head env clo stream buff self =
     (case stream of
        [] \<Rightarrow>
          (StopIteration, StreamGen clo Finished,
           self\<lparr>cache := set_cache env (cache self) (g_segments clo) (g_context clo) buff\<rparr>)
      | results # rest \<Rightarrow>
          (case collect (map slot_stream results) of
             Inl e \<Rightarrow> (Raise e, StreamGen clo Finished, self)
           | Inr results' \<Rightarrow>
               (Yield (map (Pair sr) results'), StreamGen clo (AtYield rest buff results'), self)))"

text \<open>
  One \<^verbatim>\<open>next()\<close> on a generator. The backend is invoked when the body of the streaming
  generator starts; the code after the \<^verbatim>\<open>yield\<close> (lines 191 to 197) runs when the generator
  is resumed.
\<close>

fun gen_next ::
  "('a, 'e, 's, 'w, 'c) env \<Rightarrow> ('a, 'e, 's, 'w) generator \<Rightarrow> ('e, 's, 'c) ChatTTSModel
     \<Rightarrow> 'a NP_AUDIO list signal \<times> ('a, 'e, 's, 'w) generator \<times> ('e, 's, 'c) ChatTTSModel" where
  "gen_next env (CachedGen cached False) self = (Yield cached, CachedGen cached True, self)"
| "gen_next env (CachedGen cached True) self = (StopIteration, CachedGen cached True, self)"
| "gen_next env (StreamGen clo Start) self =
     loop_head env clo (generate_audio_stream env (g_seed clo) (g_kwargs clo)) None
       (self\<lparr>calls := calls self @ [GenerateAudioStream (g_seed clo) (g_kwargs clo)]\<rparr>)"
| "gen_next env (StreamGen clo (AtYield rest None results)) self =
     loop_head env clo rest (Some (map (Pair sr) results)) self"
| "gen_next env (StreamGen clo (AtYield rest (Some buff) results)) self =
     (case accumulate buff 0 results of
        Inl e \<Rightarrow> (Raise e, StreamGen clo Finished, self)
      | Inr buff' \<Rightarrow> loop_head env clo rest (Some buff') self)"
| "gen_next env (StreamGen clo Finished) self = (StopIteration, StreamGen clo Finished, self)"

text \<open>The number of values a generator can still yield, at most.\<close>

fun remaining :: "('a, 'e, 's, 'w, 'c) env \<Rightarrow> ('a, 'e, 's, 'w) generator \<Rightarrow> nat" where
  "remaining env (CachedGen _ False) = 1"
| "remaining env (CachedGen _ True) = 0"
| "remaining env (StreamGen clo Start) =
     Suc (length (generate_audio_stream env (g_seed clo) (g_kwargs clo)))"
| "remaining env (StreamGen clo (AtYield rest _ _)) = Suc (length rest)"
| "remaining env (StreamGen clo Finished) = 0"

text \<open>
  A consumer that takes every value and reads each one before it asks for the next (a
  \<^verbatim>\<open>for\<close> loop that never breaks and uses the batch in its body): the values in yield order,
  as they are when yielded, how the generator ended, and the model afterwards. What a
  consumer holds that keeps the yielded lists and reads them later is \<open>list_stream\<close> below.
\<close>

function consume ::
  "('a, 'e, 's, 'w, 'c) env \<Rightarrow> ('a, 'e, 's, 'w) generator \<Rightarrow> ('e, 's, 'c) ChatTTSModel
     \<Rightarrow> 'a NP_AUDIO list list \<times> (error + unit) \<times> ('e, 's, 'c) ChatTTSModel" where
  "consume env g self =
     (case gen_next env g self of
        (Yield v, g', self') \<Rightarrow>
          (case consume env g' self' of (vs, r, self'') \<Rightarrow> (v # vs, r, self''))
      | (StopIteration, g', self') \<Rightarrow> ([], Inr (), self')
      | (Raise e, g', self') \<Rightarrow> ([], Inl e, self'))"
  by pat_completeness auto
termination
  apply (relation "measure (\<lambda>(env, g, self). remaining env g)")
   apply simp
  subgoal for env g self x y v g' self'
    apply (induction env g self rule: gen_next.induct)
         apply (auto simp: loop_head_def split: list.splits sum.splits)
    done
  done

section \<open>The streaming generator and its list objects\<close>

text \<open>
  A yielded batch is a Python list object, and the streaming generator keeps the first one
  it yields as its buffer (line 192, \<^verbatim>\<open>audio_arr_buff = audio_arr\<close>) and assigns into its
  slots after every later yield (line 197). To follow that, the list objects the generator
  creates live in a store, addressed in the order of their creation; the generator yields
  addresses, and its buffer is an address.
\<close>

type_synonym 'a store = "'a NP_AUDIO list list"

definition alloc :: "'a NP_AUDIO list \<Rightarrow> 'a store \<Rightarrow> nat \<times> 'a store" where
  "alloc v st = (length st, st @ [v])"

text \<open>Lines 194 to 197 on the buffer object at address \<open>a\<close>: each assignment changes the object.\<close>

fun accumulate_at ::
  "nat \<Rightarrow> nat \<Rightarrow> 'a list list \<Rightarrow> 'a store \<Rightarrow> (error + unit) \<times> 'a store" where
  "accumulate_at a i [] st = (Inr (), st)"
| "accumulate_at a i (data # rest) st =
     (if i < length (st ! a)
      then (let (sr1, before) = st ! a ! i
            in accumulate_at a (Suc i) rest (st[a := (st ! a)[i := (sr1, before @ data)]]))
      else (Inl IndexError, st))"

text \<open>
  Where the body is suspended: at the \<^verbatim>\<open>yield\<close> the frame has the rest of the backend stream,
  the address of the buffer, the \<^verbatim>\<open>results\<close> of the batch just yielded and the address of the
  list just yielded.
\<close>

datatype 'a ref_frame =
  RStart
| RAtYield "'a ndarray option list list" "nat option" "'a list list" nat
| RFinished

definition ref_loop_head ::
  "('a, 'e, 's, 'w, 'c) env \<Rightarrow> ('e, 's, 'w) closure \<Rightarrow> 'a ndarray option list list
     \<Rightarrow> nat option \<Rightarrow> ('e, 's, 'c) ChatTTSModel \<Rightarrow> 'a store
     \<Rightarrow> nat signal \<times> 'a ref_frame \<times> ('e, 's, 'c) ChatTTSModel \<times> 'a store" where
  "ref_loop_head env clo stream buff self st =
     (case stream of
        [] \<Rightarrow>
          (StopIteration, RFinished,
           self\<lparr>cache := set_cache env (cache self) (g_segments clo) (g_context clo)
                             (case buff of None \<Rightarrow> None | Some b \<Rightarrow> Some (st ! b))\<rparr>,
           st)
      | results # rest \<Rightarrow>
          (case collect (map slot_stream results) of
             Inl e \<Rightarrow> (Raise e, RFinished, self, st)
           | Inr results' \<Rightarrow>
               (let (a, st') = alloc (map (Pair sr) results') st
                in (Yield a, RAtYield rest buff results' a, self, st'))))"

text \<open>One \<^verbatim>\<open>next()\<close> on the streaming generator, with the store.\<close>

fun ref_next ::
  "('a, 'e, 's, 'w, 'c) env \<Rightarrow> ('e, 's, 'w) closure \<Rightarrow> 'a ref_frame
     \<Rightarrow> ('e, 's, 'c) ChatTTSModel \<Rightarrow> 'a store
     \<Rightarrow> nat signal \<times> 'a ref_frame \<times> ('e, 's, 'c) ChatTTSModel \<times> 'a store" where
  "ref_next env clo RStart self st =
     ref_loop_head env clo (generate_audio_stream env (g_seed clo) (g_kwargs clo)) None
       (self\<lparr>calls := calls self @ [GenerateAudioStream (g_seed clo) (g_kwargs clo)]\<rparr>) st"
| "ref_next env clo (RAtYield rest None results a) self st =
     ref_loop_head env clo rest (Some a) self st"
| "ref_next env clo (RAtYield rest (Some b) results a) self st =
     (case accumulate_at b 0 results st of
        (Inl e, st') \<Rightarrow> (Raise e, RFinished, self, st')
      | (Inr u, st') \<Rightarrow> ref_loop_head env clo rest (Some b) self st')"
| "ref_next env clo RFinished self st = (StopIteration, RFinished, self, st)"

fun ref_remaining ::
  "('a, 'e, 's, 'w, 'c) env \<Rightarrow> ('e, 's, 'w) closure \<Rightarrow> 'a ref_frame \<Rightarrow> nat" where
  "ref_remaining env clo RStart =
     Suc (length (generate_audio_stream env (g_seed clo) (g_kwargs clo)))"
| "ref_remaining env clo (RAtYield rest _ _ _) = Suc (length rest)"
| "ref_remaining env clo RFinished = 0"

text \<open>Taking every value: the addresses yielded, how the generator ended, the model and the store.\<close>

function ref_drain ::
  "('a, 'e, 's, 'w, 'c) env \<Rightarrow> ('e, 's, 'w) closure \<Rightarrow> 'a ref_frame
     \<Rightarrow> ('e, 's, 'c) ChatTTSModel \<Rightarrow> 'a store
     \<Rightarrow> nat list \<times> (error + unit) \<times> ('e, 's, 'c) ChatTTSModel \<times> 'a store" where
  "ref_drain env clo fr self st =
     (case ref_next env clo fr self st of
        (Yield a, fr', self', st') \<Rightarrow>
          (case ref_drain env clo fr' self' st' of (as, r, self'', st'') \<Rightarrow> (a # as, r, self'', st''))
      | (StopIteration, fr', self', st') \<Rightarrow> ([], Inr (), self', st')
      | (Raise e, fr', self', st') \<Rightarrow> ([], Inl e, self', st'))"
  by pat_completeness auto
termination
  apply (relation "measure (\<lambda>(env, clo, fr, self, st). ref_remaining env clo fr)")
   apply simp
  subgoal for env clo fr self st
    apply (induction env clo fr self st rule: ref_next.induct)
       apply (auto simp: ref_loop_head_def alloc_def split: list.splits sum.splits prod.splits)
    done
  done

text \<open>
  \<^verbatim>\<open>list(gen)\<close> on the streaming generator just returned, with closure \<open>clo\<close>: the generator
  runs to its end and the lists are read afterwards, as the store has them then. When the
  generator raises there is no list.
\<close>

definition list_stream ::
  "('a, 'e, 's, 'w, 'c) env \<Rightarrow> ('e, 's, 'w) closure \<Rightarrow> ('e, 's, 'c) ChatTTSModel
     \<Rightarrow> (error + 'a NP_AUDIO list list) \<times> ('e, 's, 'c) ChatTTSModel" where
  "list_stream env clo self =
     (case ref_drain env clo RStart self [] of
        (as, Inl e, self', st) \<Rightarrow> (Inl e, self')
      | (as, Inr u, self', st) \<Rightarrow> (Inr (map (\<lambda>a. st ! a) as), self'))"

section \<open>The generation entry point\<close>

datatype ('a, 'e, 's, 'w) returned =
  Batch "'a NP_AUDIO list" | Stream "('a, 'e, 's, 'w) generator"

text \<open>
  \<^verbatim>\<open>generate_batch_base\<close>. An exception leaves the model as it is when the exception is
  raised: the backend object has been created and recorded before \<^verbatim>\<open>segments[0]\<close> is read.
\<close>

definition generate_batch_base ::
  "('a, 'e, 's, 'w, 'c) env \<Rightarrow> ('e, 's, 'c) ChatTTSModel \<Rightarrow> 'w TTSSegment list
     \<Rightarrow> TTSPipelineContext \<Rightarrow> bool
     \<Rightarrow> (error + ('a, 'e, 's, 'w) returned) \<times> ('e, 's, 'c) ChatTTSModel" where
  "generate_batch_base env self segments context stream =
     (case get_cache env (cache self) segments context of
        Some cached \<Rightarrow>
          (if \<not> stream then (Inr (Batch cached), self)
           else (Inr (Stream (CachedGen cached False)), self))
      | None \<Rightarrow>
          (let self2 = start_infer self
           in case segments of
                [] \<Rightarrow> (Inl IndexError, self2)
              | seg0 # _ \<Rightarrow>
                  (let kw = infer_kwargs env seg0 segments context;
                       seed = infer_seed seg0;
                       chunk_size = stream_chunk_size (infer_config context)
                   in if \<not> stream
                      then (let self3 = self2\<lparr>calls := calls self2 @ [GenerateAudio seed kw]\<rparr>;
                                results = generate_audio env seed kw
                            in case collect (map slot_batch results) of
                                 Inl e \<Rightarrow> (Inl e, self3)
                               | Inr audio_arr \<Rightarrow>
                                   (Inr (Batch audio_arr),
                                    self3\<lparr>cache := set_cache env (cache self3) segments context
                                                      (Some audio_arr)\<rparr>))
                      else (Inr (Stream (StreamGen
                                  \<lparr>g_seed = seed,
                                   g_kwargs = kw @ [(''stream_chunk_size'', VInt chunk_size)],
                                   g_segments = segments, g_context = context\<rparr> Start)),
                            self2))))"

definition generate_batch ::
  "('a, 'e, 's, 'w, 'c) env \<Rightarrow> ('e, 's, 'c) ChatTTSModel \<Rightarrow> 'w TTSSegment list
     \<Rightarrow> TTSPipelineContext
     \<Rightarrow> (error + ('a, 'e, 's, 'w) returned) \<times> ('e, 's, 'c) ChatTTSModel" where
  "generate_batch env self segments context = generate_batch_base env self segments context False"

definition generate_batch_stream ::
  "('a, 'e, 's, 'w, 'c) env \<Rightarrow> ('e, 's, 'c) ChatTTSModel \<Rightarrow> 'w TTSSegment list
     \<Rightarrow> TTSPipelineContext
     \<Rightarrow> (error + ('a, 'e, 's, 'w) returned) \<times> ('e, 's, 'c) ChatTTSModel" where
  "generate_batch_stream env self segments context =
     generate_batch_base env self segments context True"

section \<open>Reading a recorded backend call\<close>

definition call_seed :: "('e, 's) backend_call \<Rightarrow> int" where
  "call_seed c = (case c of GenerateAudio s _ \<Rightarrow> s | GenerateAudioStream s _ \<Rightarrow> s)"

definition call_kwargs :: "('e, 's) backend_call \<Rightarrow> ('e, 's) kwargs" where
  "call_kwargs c = (case c of GenerateAudio _ kw \<Rightarrow> kw | GenerateAudioStream _ kw \<Rightarrow> kw)"

definition call_keywords :: "('e, 's) backend_call \<Rightarrow> string list" where
  "call_keywords c = map fst (call_kwargs c)"

definition call_arg :: "string \<Rightarrow> ('e, 's) backend_call \<Rightarrow> ('e, 's) pyval option" where
  "call_arg k c = map_of (call_kwargs c) k"

section \<open>What the results are expected to be\<close>

text \<open>
  The primary channel of a multi-channel array, and the audio expected in one slot of a
  non-streaming result and of a streamed batch: empty for the failure sentinel (and, when
  streaming, for an array without elements), the primary channel otherwise.
\<close>

definition primary_channel :: "'a ndarray \<Rightarrow> 'a list" where
  "primary_channel d = (case d of [] \<Rightarrow> [] | ch # _ \<Rightarrow> ch)"

definition expected_slot :: "'a ndarray option \<Rightarrow> 'a NP_AUDIO" where
  "expected_slot data = (24000, case data of None \<Rightarrow> [] | Some d \<Rightarrow> primary_channel d)"

definition expected_chunk :: "'a ndarray option \<Rightarrow> 'a NP_AUDIO" where
  "expected_chunk data =
     (24000, case data of None \<Rightarrow> []
             | Some d \<Rightarrow> if nd_size d = 0 then [] else primary_channel d)"

text \<open>
  The batches of a backend stream that reach the consumer, and how the generator ends.
  The buffer has the slots of the first batch; a later batch with more slots is still
  yielded, and the generator raises IndexError when it is resumed to append that batch.
\<close>

definition delivered :: "'x list list \<Rightarrow> 'x list list" where
  "delivered batches =
     (case batches of
        [] \<Rightarrow> []
      | b1 # _ \<Rightarrow>
          takeWhile (\<lambda>b. length b \<le> length b1) batches
            @ take 1 (dropWhile (\<lambda>b. length b \<le> length b1) batches))"

definition stream_outcome :: "'x list list \<Rightarrow> error + unit" where
  "stream_outcome batches =
     (case batches of
        [] \<Rightarrow> Inr ()
      | b1 # _ \<Rightarrow>
          if list_all (\<lambda>b. length b \<le> length b1) batches then Inr () else Inl IndexError)"

text \<open>The audio yielded for segment index \<open>i\<close>, concatenated in yield order.\<close>

definition chunks_at :: "nat \<Rightarrow> 'a NP_AUDIO list list \<Rightarrow> 'a list" where
  "chunks_at i vs = concat (map (\<lambda>v. snd (v ! i)) vs)"

definition reassembled :: "nat \<Rightarrow> 'a NP_AUDIO list list \<Rightarrow> 'a NP_AUDIO list" where
  "reassembled n vs = map (\<lambda>i. (24000, chunks_at i vs)) [0 ..< n]"

section \<open>The streaming contract of the backend\<close>

text \<open>
  Modelled from the spec: the relation between the two generation entry points of the
  inference backend adapter (\<^verbatim>\<open>ChatTTSInfer.generate_audio\<close> and
  \<^verbatim>\<open>ChatTTSInfer.generate_audio_stream\<close>, which are not among the sources). Section 4.2 of
  the specification: the blocking entry point returns one audio array per input text, or
  the failure sentinel; the streaming entry point yields lists of per-segment chunks, each
  chunk holding the audio newly generated since the previous yield, an empty chunk for a
  segment that has finished and the sentinel for a segment that failed. So a stream is
  the audio \<open>full\<close> of the blocking call delivered in consecutive pieces along the sample
  axis, the piece of the k-th yield having \<open>cuts ! k\<close> samples per channel at most.
\<close>

definition slice :: "nat \<Rightarrow> nat \<Rightarrow> 'a ndarray \<Rightarrow> 'a ndarray" where
  "slice pos n d = map (\<lambda>ch. take n (drop pos ch)) d"

text \<open>
  Modelled from the spec: the batches the streaming entry point yields for the audio
  \<open>full\<close> when the yields deliver \<open>cuts\<close> samples in turn, starting at sample \<open>pos\<close>. A
  piece taken past the end of the audio is an empty chunk; a failed segment gives the
  sentinel in every batch.
\<close>

fun stream_of :: "nat list \<Rightarrow> nat \<Rightarrow> 'a ndarray option list \<Rightarrow> 'a ndarray option list list" where
  "stream_of [] pos full = []"
| "stream_of (n # cuts) pos full =
     map (map_option (slice pos n)) full # stream_of cuts (pos + n) full"

section \<open>A test double\<close>

text \<open>
  A concrete environment on which the statements below are evaluated. The cache store is
  the list of writes, newest first, keyed by the texts of the batch. The backend double
  produces, for a non-empty text, a two-channel array whose samples are the code points of
  the text, and the failure sentinel for an empty text; when streaming it delivers the
  first two samples in one batch and the others in a second batch.
\<close>

type_synonym demo_cache = "(pystr list \<times> nat NP_AUDIO list option) list"

definition demo_texts :: "(nat, nat list) kwargs \<Rightarrow> pystr list" where
  "demo_texts kw = (case map_of kw ''text'' of Some (VStrList ts) \<Rightarrow> ts | _ \<Rightarrow> [])"

definition demo_env :: "(nat, nat, nat list, nat list, demo_cache) env" where
  "demo_env =
     \<lparr>get_cache = (\<lambda>c segments context.
        case map_of c (map seg_text segments) of Some (Some v) \<Rightarrow> Some v | _ \<Rightarrow> None),
      set_cache = (\<lambda>c segments context v. (map seg_text segments, v) # c),
      get_spk_emb = (\<lambda>segment context. Some 7),
      bytes_to_librosa_array = (\<lambda>w r. w),
      normalize_audio = (\<lambda>a target. (target, snd a)),
      sample_audio_speaker = (\<lambda>w. w),
      generate_audio = (\<lambda>seed kw.
        map (\<lambda>t. if t = [] then None else Some [t, t]) (demo_texts kw)),
      generate_audio_stream = (\<lambda>seed kw.
        [map (\<lambda>t. if t = [] then None else Some [take 2 t, take 2 t]) (demo_texts kw),
         map (\<lambda>t. if t = [] then None else Some [drop 2 t, drop 2 t]) (demo_texts kw)])\<rparr>"

text \<open>The same double with a backend stream that ends before its first batch.\<close>

definition demo_env_silent :: "(nat, nat, nat list, nat list, demo_cache) env" where
  "demo_env_silent = demo_env\<lparr>generate_audio_stream := (\<lambda>seed kw. [])\<rparr>"

definition demo_context :: TTSPipelineContext where
  "demo_context = \<lparr>infer_config = \<lparr>stream_chunk_size = 96\<rparr>\<rparr>"

definition demo_speaker :: "nat list ref_data list \<Rightarrow> nat list TTSSpeaker" where
  "demo_speaker refs = \<lparr>get_ref = (\<lambda>p. find p refs)\<rparr>"

definition demo_segment :: "pystr \<Rightarrow> nat list TTSSpeaker option \<Rightarrow> nat list TTSSegment" where
  "demo_segment t sp =
     \<lparr>seg_text = t, temperature = 3 / 10, top_p = 7 / 10, top_k = 20, infer_seed = 42,
      prompt1 = [], prompt2 = py ''calm'', prefix = [], emotion = py ''happy'', spk = sp\<rparr>"

definition demo_ref :: "pystr \<Rightarrow> nat list ref_data" where
  "demo_ref t = \<lparr>wav = [1, 2, 3], wav_sr = 16000, ref_text = t, ref_emotion = py ''happy''\<rparr>"

definition demo_cached :: "nat NP_AUDIO list" where
  "demo_cached = [(24000, [104, 105])]"

text \<open>A model whose cache already holds audio for the one-segment batch with text "hi".\<close>

definition demo_warm :: "(nat, nat list, demo_cache) ChatTTSModel" where
  "demo_warm = init [([py ''hi''], Some demo_cached)]"

definition demo_cold :: "(nat, nat list, demo_cache) ChatTTSModel" where
  "demo_cold = init []"

text \<open>
  What the generator returned for the one-segment batch with text "hi" has captured, when
  the segment has no speaker.
\<close>

definition demo_closure :: "(nat, nat list, nat list) closure" where
  "demo_closure =
     \<lparr>g_seed = 42,
      g_kwargs =
        [(''text'', VStrList [py ''hi'']), (''spk_emb'', VNone), (''spk_smp'', VNone),
         (''txt_smp'', VNone), (''top_P'', VFloat (7 / 10)), (''top_K'', VInt 20),
         (''temperature'', VFloat (3 / 10)), (''prompt1'', VStr []),
         (''prompt2'', VStr (py ''[Ptts][Ptts][Ptts] calm [Stts][Ptts][Stts][Ptts][Stts]'')),
         (''prefix'', VStr []), (''stream_chunk_size'', VInt 96)],
      g_segments = [demo_segment (py ''hi'') None],
      g_context = demo_context\<rparr>"

text \<open>A second segment whose generation parameters differ from those of the first.\<close>

definition demo_other :: "nat list TTSSegment" where
  "demo_other = (demo_segment (py ''yo'') None)\<lparr>temperature := 9 / 10, infer_seed := 7\<rparr>"

text \<open>A segment whose speaker has a reference for the emotion of the segment, with transcript \<open>t\<close>.\<close>

definition demo_voiced :: "pystr \<Rightarrow> nat list TTSSegment" where
  "demo_voiced t = demo_segment (py ''hi'') (Some (demo_speaker [demo_ref t]))"

text \<open>The same for the one-segment batch with text "hey".\<close>

definition demo_closure_hey :: "(nat, nat list, nat list) closure" where
  "demo_closure_hey =
     \<lparr>g_seed = 42,
      g_kwargs =
        [(''text'', VStrList [py ''hey'']), (''spk_emb'', VNone), (''spk_smp'', VNone),
         (''txt_smp'', VNone), (''top_P'', VFloat (7 / 10)), (''top_K'', VInt 20),
         (''temperature'', VFloat (3 / 10)), (''prompt1'', VStr []),
         (''prompt2'', VStr (py ''[Ptts][Ptts][Ptts] calm [Stts][Ptts][Stts][Ptts][Stts]'')),
         (''prefix'', VStr []), (''stream_chunk_size'', VInt 96)],
      g_segments = [demo_segment (py ''hey'') None],
      g_context = demo_context\<rparr>"

text \<open>
  Appending one streamed batch to the buffer, slot by slot: what the loop of lines 194 to
  197 computes when the batch has a slot for every buffer entry.
\<close>

definition append_chunks :: "'a NP_AUDIO list \<Rightarrow> 'a list list \<Rightarrow> 'a NP_AUDIO list" where
  "append_chunks buff results = map (\<lambda>(b, d). (fst b, snd b @ d)) (zip buff results)"

section \<open>Generators: evaluation rules\<close>

declare consume.simps [simp del]

lemma consume_Yield:
  "gen_next env g self = (Yield v, g', self') \<Longrightarrow>
   consume env g self = (case consume env g' self' of (vs, r, s) \<Rightarrow> (v # vs, r, s))"
  by (subst consume.simps) simp

lemma consume_Stop:
  "gen_next env g self = (StopIteration, g', self') \<Longrightarrow> consume env g self = ([], Inr (), self')"
  by (subst consume.simps) simp

lemma consume_Raise:
  "gen_next env g self = (Raise e, g', self') \<Longrightarrow> consume env g self = ([], Inl e, self')"
  by (subst consume.simps) simp

declare ref_drain.simps [simp del]

lemma ref_drain_Yield:
  "ref_next env clo fr self st = (Yield a, fr', self', st') \<Longrightarrow>
   ref_drain env clo fr self st
     = (case ref_drain env clo fr' self' st' of (as, r, s, t) \<Rightarrow> (a # as, r, s, t))"
  by (subst ref_drain.simps) simp

lemma ref_drain_Stop:
  "ref_next env clo fr self st = (StopIteration, fr', self', st') \<Longrightarrow>
   ref_drain env clo fr self st = ([], Inr (), self', st')"
  by (subst ref_drain.simps) simp

lemma ref_drain_Raise:
  "ref_next env clo fr self st = (Raise e, fr', self', st') \<Longrightarrow>
   ref_drain env clo fr self st = ([], Inl e, self', st')"
  by (subst ref_drain.simps) simp

lemma ref_loop_head_Nil:
  "ref_loop_head env clo [] buff self st =
     (StopIteration, RFinished,
      self\<lparr>cache := set_cache env (cache self) (g_segments clo) (g_context clo)
                        (case buff of None \<Rightarrow> None | Some b \<Rightarrow> Some (st ! b))\<rparr>,
      st)"
  by (simp add: ref_loop_head_def)

lemma slot_stream_total: "slot_stream d = Inr (snd (expected_chunk d))"
  by (auto simp: slot_stream_def expected_chunk_def index0_def primary_channel_def nd_size_def
      split: option.splits list.splits)

lemma collect_Inr: "collect (map (\<lambda>x. Inr (f x)) xs) = Inr (map f xs)"
  by (induction xs) simp_all

lemma collect_slot_stream:
  "collect (map slot_stream results) = Inr (map (\<lambda>d. snd (expected_chunk d)) results)"
  by (induction results) (simp_all add: slot_stream_total)

lemma Pair_sr_expected_chunk: "(sr, snd (expected_chunk d)) = expected_chunk d"
  by (simp add: sr_def expected_chunk_def)

lemma loop_head_Nil:
  "loop_head env clo [] buff self =
     (StopIteration, StreamGen clo Finished,
      self\<lparr>cache := set_cache env (cache self) (g_segments clo) (g_context clo) buff\<rparr>)"
  by (simp add: loop_head_def)

lemma loop_head_Cons:
  "loop_head env clo (results # rest) buff self =
     (Yield (map expected_chunk results),
      StreamGen clo (AtYield rest buff (map (\<lambda>d. snd (expected_chunk d)) results)), self)"
  by (simp add: loop_head_def collect_slot_stream Pair_sr_expected_chunk)


lemma ref_loop_head_Cons:
  "ref_loop_head env clo (results # rest) buff self st =
     (Yield (length st),
      RAtYield rest buff (map (\<lambda>d. snd (expected_chunk d)) results) (length st), self,
      st @ [map expected_chunk results])"
  by (simp add: ref_loop_head_def collect_slot_stream Pair_sr_expected_chunk alloc_def)

section \<open>The accumulation loop\<close>

lemma accumulate_gen:
  "i + length results \<le> length buff \<Longrightarrow>
   accumulate buff i results =
     Inr (take i buff @ append_chunks (drop i buff) results @ drop (i + length results) buff)"
proof (induction results arbitrary: buff i)
  case Nil
  then show ?case by (simp add: append_chunks_def)
next
  case (Cons d results)
  then have i: "i < length buff" by simp
  obtain s b where bi: "buff ! i = (s, b)" by (cases "buff ! i")
  let ?buff = "buff[i := (s, b @ d)]"
  have "Suc i + length results \<le> length ?buff" using Cons.prems by simp
  from Cons.IH[OF this]
  have "accumulate ?buff (Suc i) results =
        Inr (take (Suc i) ?buff @ append_chunks (drop (Suc i) ?buff) results
              @ drop (Suc i + length results) ?buff)" .
  moreover have "take (Suc i) ?buff = take i buff @ [(s, b @ d)]"
    using i by (simp add: take_Suc_conv_app_nth)
  moreover have "drop (Suc i) ?buff = drop (Suc i) buff" by simp
  moreover have "drop (Suc i + length results) ?buff = drop (Suc i + length results) buff" by simp
  moreover have "drop i buff = (s, b) # drop (Suc i) buff"
    using Cons_nth_drop_Suc[OF i] bi by simp
  ultimately show ?case
    using i bi by (simp add: append_chunks_def)
qed

lemma accumulate_eq:
  "length results = length buff \<Longrightarrow> accumulate buff 0 results = Inr (append_chunks buff results)"
  using accumulate_gen[of 0 results buff] by simp

text \<open>A batch with more slots than the buffer makes the loop raise.\<close>

lemma accumulate_too_long:
  "length buff < i + length results \<Longrightarrow> i \<le> length buff \<Longrightarrow> accumulate buff i results = Inl IndexError"
proof (induction results arbitrary: buff i)
  case Nil
  then show ?case by simp
next
  case (Cons d results)
  show ?case
  proof (cases "i < length buff")
    case True
    obtain s b where bi: "buff ! i = (s, b)" by (cases "buff ! i")
    have "accumulate (buff[i := (s, b @ d)]) (Suc i) results = Inl IndexError"
      by (rule Cons.IH) (use Cons.prems True in simp_all)
    then show ?thesis using True bi by simp
  next
    case False
    then show ?thesis by simp
  qed
qed

lemma gen_next_AtYield_cases:
  obtains (raise) e where "gen_next env (StreamGen clo (AtYield rest buff results)) self
                             = (Raise e, StreamGen clo Finished, self)"
  | (go) buff' where "gen_next env (StreamGen clo (AtYield rest buff results)) self
                             = loop_head env clo rest (Some buff') self"
proof (cases buff)
  case None
  then show ?thesis using go by simp
next
  case (Some b)
  then show ?thesis using raise go by (cases "accumulate b 0 results") simp_all
qed

lemma consume_AtYield_calls:
  "calls (snd (snd (consume env (StreamGen clo (AtYield rest buff results)) self))) = calls self"
proof (induction rest arbitrary: buff results self)
  case Nil
  show ?case
    by (cases rule: gen_next_AtYield_cases[of env clo "[]" buff results self])
       (simp_all add: consume_Raise consume_Stop loop_head_Nil)
next
  case (Cons b rest)
  show ?case
  proof (cases rule: gen_next_AtYield_cases[of env clo "b # rest" buff results self])
    case (raise e)
    then show ?thesis by (simp add: consume_Raise)
  next
    case (go buff')
    then have "consume env (StreamGen clo (AtYield (b # rest) buff results)) self =
          (case consume env (StreamGen clo (AtYield rest (Some buff') (map (\<lambda>d. snd (expected_chunk d)) b))) self
           of (vs, r, s) \<Rightarrow> (map expected_chunk b # vs, r, s))"
      by (simp add: consume_Yield loop_head_Cons)
    then show ?thesis
      using Cons.IH[of "Some buff'" "map (\<lambda>d. snd (expected_chunk d)) b" self]
      by (auto split: prod.splits)
  qed
qed

lemma consume_Start:
  "consume env (StreamGen clo Start) self =
     (let self1 = self\<lparr>calls := calls self @ [GenerateAudioStream (g_seed clo) (g_kwargs clo)]\<rparr>
      in case generate_audio_stream env (g_seed clo) (g_kwargs clo) of
           [] \<Rightarrow> ([], Inr (),
                  self1\<lparr>cache := set_cache env (cache self1) (g_segments clo) (g_context clo) None\<rparr>)
         | b # rest \<Rightarrow>
             (case consume env (StreamGen clo (AtYield rest None (map (\<lambda>d. snd (expected_chunk d)) b))) self1
              of (vs, r, s) \<Rightarrow> (map expected_chunk b # vs, r, s)))"
  by (cases "generate_audio_stream env (g_seed clo) (g_kwargs clo)")
     (simp_all add: consume_Stop consume_Yield loop_head_Nil loop_head_Cons Let_def)

lemma consume_Start_calls:
  "calls (snd (snd (consume env (StreamGen clo Start) self)))
     = calls self @ [GenerateAudioStream (g_seed clo) (g_kwargs clo)]"
proof (cases "generate_audio_stream env (g_seed clo) (g_kwargs clo)")
  case Nil
  then show ?thesis by (simp add: consume_Start)
next
  case (Cons b rest)
  then show ?thesis
    using consume_AtYield_calls[of env clo rest None "map (\<lambda>d. snd (expected_chunk d)) b"
        "self\<lparr>calls := calls self @ [GenerateAudioStream (g_seed clo) (g_kwargs clo)]\<rparr>"]
    by (auto simp: consume_Start Let_def split: prod.splits)
qed

section \<open>The backend call on a cache miss\<close>

lemma miss_batch_calls:
  assumes "get_cache env (cache self) (seg0 # rest) context = None"
  shows "calls (snd (generate_batch_base env self (seg0 # rest) context False))
           = calls self @ [GenerateAudio (infer_seed seg0) (infer_kwargs env seg0 (seg0 # rest) context)]"
  using assms
  by (simp add: generate_batch_base_def Let_def start_infer_def get_infer_def load_def
      split: sum.splits prod.splits)

lemma miss_batch_result:
  assumes "get_cache env (cache self) (seg0 # rest) context = None"
  shows "fst (generate_batch_base env self (seg0 # rest) context False)
           = (case collect (map slot_batch
                  (generate_audio env (infer_seed seg0) (infer_kwargs env seg0 (seg0 # rest) context)))
              of Inl e \<Rightarrow> Inl e | Inr a \<Rightarrow> Inr (Batch a))"
  using assms
  by (simp add: generate_batch_base_def Let_def split: sum.splits)

lemma miss_stream:
  assumes "get_cache env (cache self) (seg0 # rest) context = None"
  shows "generate_batch_base env self (seg0 # rest) context True
           = (Inr (Stream (StreamGen
                \<lparr>g_seed = infer_seed seg0,
                 g_kwargs = infer_kwargs env seg0 (seg0 # rest) context
                    @ [(''stream_chunk_size'', VInt (stream_chunk_size (infer_config context)))],
                 g_segments = seg0 # rest, g_context = context\<rparr> Start)),
              start_infer self)"
  using assms
  by (simp add: generate_batch_base_def Let_def)

lemma calls_start_infer: "calls (start_infer self) = calls self"
  by (simp add: start_infer_def get_infer_def load_def Let_def)

lemma infer_kwargs_keywords:
  "map fst (infer_kwargs env seg0 segments context)
     = [''text'', ''spk_emb'', ''spk_smp'', ''txt_smp'', ''top_P'', ''top_K'', ''temperature'',
        ''prompt1'', ''prompt2'', ''prefix'']"
  by (simp add: infer_kwargs_def Let_def case_prod_beta)

lemma infer_kwargs_args:
  "map_of (infer_kwargs env seg0 segments context) ''text'' = Some (VStrList (map seg_text segments))"
  "map_of (infer_kwargs env seg0 segments context) ''top_P'' = Some (VFloat (top_p seg0))"
  "map_of (infer_kwargs env seg0 segments context) ''top_K'' = Some (VInt (top_k seg0))"
  "map_of (infer_kwargs env seg0 segments context) ''temperature'' = Some (VFloat (temperature seg0))"
  "map_of (infer_kwargs env seg0 segments context) ''prompt1'' = Some (VStr (prompt1 seg0))"
  "map_of (infer_kwargs env seg0 segments context) ''prompt2'' = Some (VStr (wrap_prompt2 (prompt2 seg0)))"
  "map_of (infer_kwargs env seg0 segments context) ''prefix'' = Some (VStr (prefix seg0))"
  by (simp_all add: infer_kwargs_def Let_def case_prod_beta)

lemma infer_kwargs_rest:
  "k \<noteq> ''text'' \<Longrightarrow>
   map_of (infer_kwargs env seg0 segments context) k = map_of (infer_kwargs env seg0 segments' context) k"
  by (simp add: infer_kwargs_def Let_def case_prod_beta)

lemma infer_kwargs_absent:
  "k \<notin> set [''text'', ''spk_emb'', ''spk_smp'', ''txt_smp'', ''top_P'', ''top_K'', ''temperature'',
        ''prompt1'', ''prompt2'', ''prefix''] \<Longrightarrow>
   map_of (infer_kwargs env seg0 segments context) k = None"
  using infer_kwargs_keywords[of env seg0 segments "context"]
  by (metis map_of_eq_None_iff set_map)

lemma call_arg_simps:
  "call_arg k (GenerateAudio sd kw) = map_of kw k"
  "call_arg k (GenerateAudioStream sd kw) = map_of kw k"
  "call_seed (GenerateAudio sd kw) = sd"
  "call_seed (GenerateAudioStream sd kw) = sd"
  "call_kwargs (GenerateAudio sd kw) = kw"
  "call_kwargs (GenerateAudioStream sd kw) = kw"
  "call_keywords (GenerateAudio sd kw) = map fst kw"
  "call_keywords (GenerateAudioStream sd kw) = map fst kw"
  by (simp_all add: call_arg_def call_seed_def call_kwargs_def call_keywords_def)

lemma stream_kwargs_arg':
  "k \<noteq> ''stream_chunk_size'' \<Longrightarrow> ([''stream_chunk_size'' \<mapsto> v] ++ m) k = m k"
  by (simp add: map_add_def split: option.splits)

lemma miss_stream_calls:
  assumes "get_cache env (cache self) (seg0 # rest) context = None"
  shows "\<exists>g s. generate_batch_base env self (seg0 # rest) context True = (Inr (Stream g), s)
           \<and> calls s = calls self
           \<and> calls (snd (snd (consume env g self')))
               = calls self' @ [GenerateAudioStream (infer_seed seg0)
                   (infer_kwargs env seg0 (seg0 # rest) context
                      @ [(''stream_chunk_size'', VInt (stream_chunk_size (infer_config context)))])]"
  by (simp add: miss_stream[OF assms] calls_start_infer consume_Start_calls)

lemma get_ref_wav_Some:
  assumes "spk seg0 = Some sp"
    and "get_ref sp (\<lambda>x. ref_emotion x = emotion seg0) = Some rd"
  shows "get_ref_wav env seg0
           = (Some (snd (normalize_audio env
                           (wav_sr rd, bytes_to_librosa_array env (wav rd) (wav_sr rd)) 24000)),
              Some (ref_text rd))"
  using assms by (simp add: get_ref_wav_def Let_def)

lemma infer_kwargs_speaker:
  "map_of (infer_kwargs env seg0 segments context) ''spk_smp''
     = Some (opt_val VSmp (map_option (sample_audio_speaker env) (fst (get_ref_wav env seg0))))"
  "map_of (infer_kwargs env seg0 segments context) ''txt_smp''
     = Some (opt_val VStr (terminate_txt_smp (snd (get_ref_wav env seg0))))"
  "map_of (infer_kwargs env seg0 segments context) ''spk_emb''
     = Some (case fst (get_ref_wav env seg0) of
               None \<Rightarrow> opt_val VEmb (case spk seg0 of None \<Rightarrow> None
                                       | Some _ \<Rightarrow> get_spk_emb env seg0 context)
             | Some _ \<Rightarrow> VNone)"
  by (simp_all add: infer_kwargs_def Let_def case_prod_beta map_option_case split: option.splits)

lemma endswith_appended: "py_endswith (t @ ideographic_full_stop) ideographic_full_stop"
  by (simp add: py_endswith_def ideographic_full_stop_def)

lemma demo_miss:
  "get_cache demo_env (cache demo_cold) segments demo_context = None"
  by (simp add: demo_env_def demo_cold_def init_def)

lemma demo_voiced_ref:
  "spk (demo_voiced t) = Some (demo_speaker [demo_ref t])"
  "get_ref (demo_speaker [demo_ref t]) (\<lambda>x. ref_emotion x = emotion (demo_voiced t)) = Some (demo_ref t)"
  by (simp_all add: demo_voiced_def demo_segment_def demo_speaker_def demo_ref_def)

section \<open>Batch parameters come from the first segment\<close>

text \<open>
  Claim C2, as the code has it. On a cache miss with a non-empty batch, the backend is
  called with exactly ten keyword arguments (eleven when streaming, which adds
  \<^verbatim>\<open>stream_chunk_size\<close>). The seed of the seed scope, temperature, top-P, top-K, the
  prefix and the two prompts are those of the first segment (the content prompt after the
  delimiter wrapping); the texts are those of all segments; and every argument other than
  the texts, the speaker arguments included, is the same for any other batch that starts
  with the same first segment. The streaming call receives the same seed and arguments.
  No repetition penalty and no token limit is passed.
\<close>

theorem first_segment_parameters:
  assumes "get_cache env (cache self) (seg0 # rest) context = None"
    and "get_cache env (cache self) (seg0 # rest') context = None"
  shows "\<exists>c d g s c'.
           calls (snd (generate_batch_base env self (seg0 # rest) context False)) = calls self @ [c]
         \<and> calls (snd (generate_batch_base env self (seg0 # rest') context False)) = calls self @ [d]
         \<and> generate_batch_base env self (seg0 # rest) context True = (Inr (Stream g), s)
         \<and> calls (snd (snd (consume env g self'))) = calls self' @ [c']
         \<and> call_seed c' = call_seed c
         \<and> call_kwargs c'
             = call_kwargs c @ [(''stream_chunk_size'', VInt (stream_chunk_size (infer_config context)))]
         \<and> call_keywords c
             = [''text'', ''spk_emb'', ''spk_smp'', ''txt_smp'', ''top_P'', ''top_K'',
                ''temperature'', ''prompt1'', ''prompt2'', ''prefix'']
         \<and> call_seed c = infer_seed seg0
         \<and> call_arg ''text'' c = Some (VStrList (map seg_text (seg0 # rest)))
         \<and> call_arg ''temperature'' c = Some (VFloat (temperature seg0))
         \<and> call_arg ''top_P'' c = Some (VFloat (top_p seg0))
         \<and> call_arg ''top_K'' c = Some (VInt (top_k seg0))
         \<and> call_arg ''prompt1'' c = Some (VStr (prompt1 seg0))
         \<and> call_arg ''prompt2'' c = Some (VStr (wrap_prompt2 (prompt2 seg0)))
         \<and> call_arg ''prefix'' c = Some (VStr (prefix seg0))
         \<and> call_seed d = call_seed c
         \<and> (\<forall>k. k \<noteq> ''text'' \<longrightarrow> call_arg k d = call_arg k c)"
proof -
  from miss_stream_calls[OF assms(1), of self']
  obtain g s where g: "generate_batch_base env self (seg0 # rest) context True = (Inr (Stream g), s)"
    and c': "calls (snd (snd (consume env g self')))
               = calls self' @ [GenerateAudioStream (infer_seed seg0)
                   (infer_kwargs env seg0 (seg0 # rest) context
                      @ [(''stream_chunk_size'', VInt (stream_chunk_size (infer_config context)))])]"
    by blast
  have other: "\<forall>k. k \<noteq> ''text'' \<longrightarrow>
      map_of (infer_kwargs env seg0 (seg0 # rest') context) k
        = map_of (infer_kwargs env seg0 (seg0 # rest) context) k"
    using infer_kwargs_rest by blast
  show ?thesis
    using miss_batch_calls[OF assms(1)] miss_batch_calls[OF assms(2)] g c' other
    by (simp add: call_arg_simps infer_kwargs_keywords infer_kwargs_args)
qed

theorem first_segment_parameters_witness:
  "get_cache demo_env (cache demo_cold) [demo_segment (py ''hi'') None, demo_other] demo_context = None
   \<and> get_cache demo_env (cache demo_cold) [demo_segment (py ''hi'') None] demo_context = None
   \<and> temperature demo_other \<noteq> temperature (demo_segment (py ''hi'') None)
   \<and> infer_seed demo_other \<noteq> infer_seed (demo_segment (py ''hi'') None)
   \<and> (\<exists>c d.
         calls (snd (generate_batch_base demo_env demo_cold
                       [demo_segment (py ''hi'') None, demo_other] demo_context False))
           = calls demo_cold @ [c]
       \<and> calls (snd (generate_batch_base demo_env demo_cold
                       [demo_segment (py ''hi'') None] demo_context False))
           = calls demo_cold @ [d]
       \<and> call_seed c = 42 \<and> call_seed d = 42
       \<and> call_arg ''temperature'' c = Some (VFloat (3 / 10))
       \<and> call_arg ''temperature'' d = Some (VFloat (3 / 10))
       \<and> call_arg ''text'' c = Some (VStrList [py ''hi'', py ''yo'']))"
proof -
  have m1: "get_cache demo_env (cache demo_cold) [demo_segment (py ''hi'') None, demo_other]
              demo_context = None"
    by (rule demo_miss)
  have m2: "get_cache demo_env (cache demo_cold) [demo_segment (py ''hi'') None] demo_context = None"
    by (rule demo_miss)
  have vals: "temperature demo_other \<noteq> temperature (demo_segment (py ''hi'') None)"
    "infer_seed demo_other \<noteq> infer_seed (demo_segment (py ''hi'') None)"
    "infer_seed (demo_segment (py ''hi'') None) = 42"
    "temperature (demo_segment (py ''hi'') None) = 3 / 10"
    "map seg_text [demo_segment (py ''hi'') None, demo_other] = [py ''hi'', py ''yo'']"
    by (simp_all add: demo_other_def demo_segment_def)
  show ?thesis
    using m1 m2 vals first_segment_parameters [OF m1 m2, of demo_cold]
    by (auto simp del: list.map)
qed

text \<open>
  The claim lists a repetition penalty and a token limit among the parameters passed to
  the backend. The two lines that would read them from the first segment are commented
  out (lines 117 and 118), and the call has no such argument.
\<close>

theorem sampling_parameters_counterexample:
  "map call_keywords
     (calls (snd (generate_batch_base demo_env demo_cold [demo_segment (py ''hi'') None]
                    demo_context False)))
     = [[''text'', ''spk_emb'', ''spk_smp'', ''txt_smp'', ''top_P'', ''top_K'', ''temperature'',
         ''prompt1'', ''prompt2'', ''prefix'']]
   \<and> map (call_arg ''repetition_penalty'')
       (calls (snd (generate_batch_base demo_env demo_cold [demo_segment (py ''hi'') None]
                      demo_context False))) = [None]
   \<and> map (call_arg ''max_new_token'')
       (calls (snd (generate_batch_base demo_env demo_cold [demo_segment (py ''hi'') None]
                      demo_context False))) = [None]"
proof -
  have "calls demo_cold = ([] :: (nat, nat list) backend_call list)"
    by (simp add: demo_cold_def init_def)
  then show ?thesis
    using miss_batch_calls[OF demo_miss, of "demo_segment (py ''hi'') None" "[]"]
    by (simp add: call_arg_simps infer_kwargs_keywords infer_kwargs_absent)
qed

section \<open>The speaker reference\<close>

text \<open>
  Claim C3, as the code has it. When the speaker of the first segment has a reference for
  the emotion of the segment, the speaker sample passed to the backend is the encoding of
  the reference waveform after \<^verbatim>\<open>normalize_audio\<close> with target rate 24000, and the
  transcript passed is the reference transcript, with the ideographic full stop appended
  when the transcript is not empty and does not end with that character. A non-empty
  transcript therefore reaches the backend ending with the full stop; an empty one is
  passed as it is. Both call sites pass the same values.
\<close>

theorem reference_audio_prepared:
  assumes "get_cache env (cache self) (seg0 # rest) context = None"
    and "spk seg0 = Some sp"
    and "get_ref sp (\<lambda>x. ref_emotion x = emotion seg0) = Some rd"
  shows "\<exists>c g s c' t.
           calls (snd (generate_batch_base env self (seg0 # rest) context False)) = calls self @ [c]
         \<and> generate_batch_base env self (seg0 # rest) context True = (Inr (Stream g), s)
         \<and> calls (snd (snd (consume env g self'))) = calls self' @ [c']
         \<and> call_arg ''spk_smp'' c' = call_arg ''spk_smp'' c
         \<and> call_arg ''txt_smp'' c' = call_arg ''txt_smp'' c
         \<and> call_arg ''spk_smp'' c
             = Some (VSmp (sample_audio_speaker env
                   (snd (normalize_audio env
                           (wav_sr rd, bytes_to_librosa_array env (wav rd) (wav_sr rd)) 24000))))
         \<and> call_arg ''txt_smp'' c = Some (VStr t)
         \<and> t = (if ref_text rd = [] \<or> py_endswith (ref_text rd) ideographic_full_stop
                then ref_text rd else ref_text rd @ ideographic_full_stop)
         \<and> (ref_text rd \<noteq> [] \<longrightarrow> py_endswith t ideographic_full_stop)"
proof -
  from miss_stream_calls[OF assms(1), of self']
  obtain g s where g: "generate_batch_base env self (seg0 # rest) context True = (Inr (Stream g), s)"
    and c': "calls (snd (snd (consume env g self')))
               = calls self' @ [GenerateAudioStream (infer_seed seg0)
                   (infer_kwargs env seg0 (seg0 # rest) context
                      @ [(''stream_chunk_size'', VInt (stream_chunk_size (infer_config context)))])]"
    by blast
  note ref = get_ref_wav_Some[OF assms(2,3), of env]
  show ?thesis
    using miss_batch_calls[OF assms(1)] g c'
    by (simp add: call_arg_simps stream_kwargs_arg' infer_kwargs_speaker ref opt_val_def
        terminate_txt_smp_def endswith_appended)
qed

theorem reference_audio_prepared_witness:
  "get_cache demo_env (cache demo_cold) [demo_voiced (py ''ok'')] demo_context = None
   \<and> spk (demo_voiced (py ''ok'')) = Some (demo_speaker [demo_ref (py ''ok'')])
   \<and> get_ref (demo_speaker [demo_ref (py ''ok'')])
         (\<lambda>x. ref_emotion x = emotion (demo_voiced (py ''ok''))) = Some (demo_ref (py ''ok''))
   \<and> (\<exists>c. calls (snd (generate_batch_base demo_env demo_cold [demo_voiced (py ''ok'')]
                          demo_context False)) = calls demo_cold @ [c]
          \<and> call_arg ''spk_smp'' c = Some (VSmp [1, 2, 3])
          \<and> call_arg ''txt_smp'' c = Some (VStr [111, 107, 12290]))"
proof -
  have miss: "get_cache demo_env (cache demo_cold) [demo_voiced (py ''ok'')] demo_context = None"
    by (rule demo_miss)
  note ref = demo_voiced_ref [of "py ''ok''"]
  have "ref_text (demo_ref (py ''ok'')) = [111, 107]"
    and "\<not> py_endswith [111, 107] ideographic_full_stop"
    and "sample_audio_speaker demo_env
           (snd (normalize_audio demo_env
              (wav_sr (demo_ref (py ''ok'')),
               bytes_to_librosa_array demo_env (wav (demo_ref (py ''ok''))) (wav_sr (demo_ref (py ''ok''))))
              24000)) = [1, 2, 3]"
    by (simp_all add: demo_ref_def py_def py_endswith_def ideographic_full_stop_def demo_env_def)
  then show ?thesis
    using miss ref reference_audio_prepared [OF miss ref, of demo_cold]
    by (auto simp: ideographic_full_stop_def)
qed

text \<open>
  The claim says that the transcript passed always ends with a terminal mark. The test
  \<^verbatim>\<open>if txt_smp and ...\<close> skips an empty transcript: it reaches the backend empty.
\<close>

theorem unterminated_transcript_counterexample:
  "map (call_arg ''txt_smp'')
     (calls (snd (generate_batch_base demo_env demo_cold [demo_voiced []] demo_context False)))
     = [Some (VStr [])]
   \<and> \<not> py_endswith [] ideographic_full_stop"
proof -
  have "calls demo_cold = ([] :: (nat, nat list) backend_call list)"
    by (simp add: demo_cold_def init_def)
  moreover have "get_ref_wav demo_env (demo_voiced []) = (Some [1, 2, 3], Some [])"
    using get_ref_wav_Some [OF demo_voiced_ref [of "[]"], where env = demo_env]
    by (simp add: demo_ref_def demo_env_def)
  ultimately show ?thesis
    using miss_batch_calls [OF demo_miss, of "demo_voiced []" "[]"]
    by (simp add: call_arg_simps infer_kwargs_speaker terminate_txt_smp_def opt_val_def
        py_endswith_def ideographic_full_stop_def)
qed

text \<open>
  Claim C9. On a cache miss the two call sites pass the same speaker arguments. When the
  speaker of the first segment has a reference for the emotion of the segment, a speaker
  sample is passed and the embedding argument is \<^verbatim>\<open>None\<close>, whatever embedding the speaker
  has; and whenever an embedding is passed, the speaker sample argument is \<^verbatim>\<open>None\<close>.
\<close>

theorem reference_sample_precedes_embedding:
  assumes "get_cache env (cache self) (seg0 # rest) context = None"
  shows "\<exists>c g s c'.
           calls (snd (generate_batch_base env self (seg0 # rest) context False)) = calls self @ [c]
         \<and> generate_batch_base env self (seg0 # rest) context True = (Inr (Stream g), s)
         \<and> calls (snd (snd (consume env g self'))) = calls self' @ [c']
         \<and> call_arg ''spk_smp'' c' = call_arg ''spk_smp'' c
         \<and> call_arg ''spk_emb'' c' = call_arg ''spk_emb'' c
         \<and> (\<forall>sp rd. spk seg0 = Some sp
               \<longrightarrow> get_ref sp (\<lambda>x. ref_emotion x = emotion seg0) = Some rd
               \<longrightarrow> (\<exists>smp. call_arg ''spk_smp'' c = Some (VSmp smp))
                    \<and> call_arg ''spk_emb'' c = Some VNone)
         \<and> (\<forall>e. call_arg ''spk_emb'' c = Some (VEmb e)
               \<longrightarrow> call_arg ''spk_smp'' c = Some VNone
                    \<and> spk seg0 \<noteq> None \<and> get_spk_emb env seg0 context = Some e)"
proof -
  from miss_stream_calls[OF assms(1), of self']
  obtain g s where g: "generate_batch_base env self (seg0 # rest) context True = (Inr (Stream g), s)"
    and c': "calls (snd (snd (consume env g self')))
               = calls self' @ [GenerateAudioStream (infer_seed seg0)
                   (infer_kwargs env seg0 (seg0 # rest) context
                      @ [(''stream_chunk_size'', VInt (stream_chunk_size (infer_config context)))])]"
    by blast
  have matched: "\<forall>sp rd. spk seg0 = Some sp
               \<longrightarrow> get_ref sp (\<lambda>x. ref_emotion x = emotion seg0) = Some rd
               \<longrightarrow> (\<exists>smp. map_of (infer_kwargs env seg0 (seg0 # rest) context) ''spk_smp''
                              = Some (VSmp smp))
                    \<and> map_of (infer_kwargs env seg0 (seg0 # rest) context) ''spk_emb'' = Some VNone"
    by (simp add: infer_kwargs_speaker get_ref_wav_Some opt_val_def)
  have only: "\<forall>e. map_of (infer_kwargs env seg0 (seg0 # rest) context) ''spk_emb'' = Some (VEmb e)
               \<longrightarrow> map_of (infer_kwargs env seg0 (seg0 # rest) context) ''spk_smp'' = Some VNone
                    \<and> spk seg0 \<noteq> None \<and> get_spk_emb env seg0 context = Some e"
    by (auto simp: infer_kwargs_speaker opt_val_def split: option.splits)
  show ?thesis
    using miss_batch_calls[OF assms(1)] g c' matched only
    by (simp add: call_arg_simps stream_kwargs_arg')
qed

theorem reference_sample_precedes_embedding_witness:
  "get_cache demo_env (cache demo_cold) [demo_voiced (py ''ok'')] demo_context = None
   \<and> get_spk_emb demo_env (demo_voiced (py ''ok'')) demo_context = Some 7
   \<and> (\<exists>c g s c'.
         calls (snd (generate_batch_base demo_env demo_cold [demo_voiced (py ''ok'')]
                       demo_context False)) = calls demo_cold @ [c]
       \<and> generate_batch_base demo_env demo_cold [demo_voiced (py ''ok'')] demo_context True
           = (Inr (Stream g), s)
       \<and> calls (snd (snd (consume demo_env g demo_cold))) = calls demo_cold @ [c']
       \<and> (\<exists>smp. call_arg ''spk_smp'' c = Some (VSmp smp)) \<and> call_arg ''spk_emb'' c = Some VNone
       \<and> (\<exists>smp. call_arg ''spk_smp'' c' = Some (VSmp smp)) \<and> call_arg ''spk_emb'' c' = Some VNone)"
proof -
  have miss: "get_cache demo_env (cache demo_cold) [demo_voiced (py ''ok'')] demo_context = None"
    by (rule demo_miss)
  have emb: "get_spk_emb demo_env (demo_voiced (py ''ok'')) demo_context = Some 7"
    by (simp add: demo_env_def)
  show ?thesis
    using miss emb demo_voiced_ref [of "py ''ok''"]
      reference_sample_precedes_embedding [OF miss, of demo_cold]
    by (auto simp del: get_ref_def)
qed

section \<open>The content prompt\<close>

text \<open>
  Claim C4. On a cache miss, both call sites pass as \<^verbatim>\<open>prompt2\<close> the content prompt of the
  first segment between the two delimiter strings when the prompt has a character other
  than white space, and the prompt itself, unchanged, when it is empty or white space only.
\<close>

theorem prompt2_wrapped_in_delimiters:
  assumes "get_cache env (cache self) (seg0 # rest) context = None"
  shows "\<exists>c g s c'.
           calls (snd (generate_batch_base env self (seg0 # rest) context False)) = calls self @ [c]
         \<and> generate_batch_base env self (seg0 # rest) context True = (Inr (Stream g), s)
         \<and> calls (snd (snd (consume env g self'))) = calls self' @ [c']
         \<and> call_arg ''prompt2'' c = call_arg ''prompt2'' c'
         \<and> call_arg ''prompt2'' c
             = Some (VStr (if py_strip (prompt2 seg0) \<noteq> []
                           then py ''[Ptts][Ptts][Ptts] '' @ prompt2 seg0
                                  @ py '' [Stts][Ptts][Stts][Ptts][Stts]''
                           else prompt2 seg0))"
proof -
  from miss_stream_calls[OF assms, of self']
  obtain g s where g: "generate_batch_base env self (seg0 # rest) context True = (Inr (Stream g), s)"
    and c': "calls (snd (snd (consume env g self')))
               = calls self' @ [GenerateAudioStream (infer_seed seg0)
                   (infer_kwargs env seg0 (seg0 # rest) context
                      @ [(''stream_chunk_size'', VInt (stream_chunk_size (infer_config context)))])]"
    by blast
  have arg: "map_of (infer_kwargs env seg0 (seg0 # rest) context) ''prompt2''
        = Some (VStr (if py_strip (prompt2 seg0) \<noteq> []
                           then py ''[Ptts][Ptts][Ptts] '' @ prompt2 seg0
                                  @ py '' [Stts][Ptts][Stts][Ptts][Stts]''
                           else prompt2 seg0))"
    by (simp add: infer_kwargs_args wrap_prompt2_def prompt_prefix_def prompt_suffix_def)
  show ?thesis
    using miss_batch_calls[OF assms] g c' arg
    by (auto simp: call_arg_simps stream_kwargs_arg')
qed

theorem prompt2_wrapped_in_delimiters_witness:
  "get_cache demo_env (cache demo_cold) [demo_segment (py ''hi'') None] demo_context = None
   \<and> (\<exists>c g s c'.
           calls (snd (generate_batch_base demo_env demo_cold [demo_segment (py ''hi'') None]
                         demo_context False)) = calls demo_cold @ [c]
         \<and> generate_batch_base demo_env demo_cold [demo_segment (py ''hi'') None] demo_context True
             = (Inr (Stream g), s)
         \<and> calls (snd (snd (consume demo_env g demo_cold))) = calls demo_cold @ [c']
         \<and> call_arg ''prompt2'' c = call_arg ''prompt2'' c'
         \<and> call_arg ''prompt2'' c
             = Some (VStr (py ''[Ptts][Ptts][Ptts] calm [Stts][Ptts][Stts][Ptts][Stts]'')))"
proof -
  have miss: "get_cache demo_env (cache demo_cold) [demo_segment (py ''hi'') None] demo_context = None"
    by (rule demo_miss)
  have strip: "py_strip (prompt2 (demo_segment (py ''hi'') None)) \<noteq> []"
    by (simp add: demo_segment_def py_def py_strip_def py_isspace_def)
  have "py ''[Ptts][Ptts][Ptts] '' @ prompt2 (demo_segment (py ''hi'') None)
            @ py '' [Stts][Ptts][Stts][Ptts][Stts]''
          = py ''[Ptts][Ptts][Ptts] calm [Stts][Ptts][Stts][Ptts][Stts]''"
    by (simp add: demo_segment_def py_def)
  then show ?thesis
    using miss strip prompt2_wrapped_in_delimiters [OF miss, of demo_cold] by simp
qed

section \<open>Results of a cache miss\<close>

lemma slot_batch_expected: "d \<noteq> Some [] \<Longrightarrow> slot_batch d = Inr (expected_slot d)"
  by (auto simp: slot_batch_def expected_slot_def index0_def primary_channel_def sr_def
      split: option.splits list.splits)

lemma collect_slot_batch:
  "\<forall>d \<in> set results. d \<noteq> Some [] \<Longrightarrow>
   collect (map slot_batch results) = Inr (map expected_slot results)"
  by (induction results) (simp_all add: slot_batch_expected)

lemma slot_batch_no_channel: "slot_batch (Some []) = Inl IndexError"
  by (simp add: slot_batch_def index0_def)

lemma length_append_chunks:
  "length results = length buff \<Longrightarrow> length (append_chunks buff results) = length buff"
  by (simp add: append_chunks_def)

lemma nth_append_chunks:
  "length results = length buff \<Longrightarrow> i < length buff \<Longrightarrow>
   append_chunks buff results ! i = (fst (buff ! i), snd (buff ! i) @ results ! i)"
  by (simp add: append_chunks_def)

lemma foldl_append_chunks:
  "length buff = n \<Longrightarrow> \<forall>r \<in> set rs. length r = n \<Longrightarrow>
   foldl append_chunks buff rs
     = map (\<lambda>i. (fst (buff ! i), snd (buff ! i) @ concat (map (\<lambda>r. r ! i) rs))) [0 ..< n]"
proof (induction rs arbitrary: buff)
  case Nil
  then show ?case by (auto intro: nth_equalityI)
next
  case (Cons r rs)
  have len: "length r = length buff" using Cons.prems by simp
  have "length (append_chunks buff r) = n"
    using Cons.prems len by (simp add: length_append_chunks)
  from Cons.IH[OF this] Cons.prems(2)
  have "foldl append_chunks (append_chunks buff r) rs
          = map (\<lambda>i. (fst (append_chunks buff r ! i),
                       snd (append_chunks buff r ! i) @ concat (map (\<lambda>r. r ! i) rs))) [0 ..< n]"
    by simp
  also have "\<dots> = map (\<lambda>i. (fst (buff ! i), snd (buff ! i) @ concat (map (\<lambda>r. r ! i) (r # rs)))) [0 ..< n]"
    using Cons.prems(1) len by (simp add: nth_append_chunks)
  finally show ?case by simp
qed

lemma consume_AtYield_uniform:
  assumes "\<forall>b \<in> set rest. length b = n" and "length results = n"
    and "\<forall>b. buff = Some b \<longrightarrow> length b = n"
  shows "consume env (StreamGen clo (AtYield rest buff results)) self
    = (map (map expected_chunk) rest, Inr (),
       self\<lparr>cache := set_cache env (cache self) (g_segments clo) (g_context clo)
          (Some (foldl append_chunks
             (case buff of None \<Rightarrow> map (Pair sr) results | Some b \<Rightarrow> append_chunks b results)
             (map (map (\<lambda>d. snd (expected_chunk d))) rest)))\<rparr>)"
  using assms
proof (induction rest arbitrary: buff results)
  case Nil
  show ?case
  proof (cases buff)
    case None
    then show ?thesis by (simp add: consume_Stop loop_head_Nil)
  next
    case (Some b)
    then have "accumulate b 0 results = Inr (append_chunks b results)"
      using Nil.prems by (simp add: accumulate_eq)
    then show ?thesis using Some by (simp add: consume_Stop loop_head_Nil)
  qed
next
  case (Cons b' rest)
  let ?r = "map (\<lambda>d. snd (expected_chunk d)) b'"
  let ?buff1 = "case buff of None \<Rightarrow> map (Pair sr) results | Some b \<Rightarrow> append_chunks b results"
  have step: "gen_next env (StreamGen clo (AtYield (b' # rest) buff results)) self
                = (Yield (map expected_chunk b'), StreamGen clo (AtYield rest (Some ?buff1) ?r), self)"
  proof (cases buff)
    case None
    then show ?thesis by (simp add: loop_head_Cons)
  next
    case (Some b)
    then have "accumulate b 0 results = Inr (append_chunks b results)"
      using Cons.prems by (simp add: accumulate_eq)
    then show ?thesis using Some by (simp add: loop_head_Cons)
  qed
  have len1: "length ?buff1 = n"
    using Cons.prems by (cases buff) (simp_all add: length_append_chunks)
  have "consume env (StreamGen clo (AtYield rest (Some ?buff1) ?r)) self
    = (map (map expected_chunk) rest, Inr (),
       self\<lparr>cache := set_cache env (cache self) (g_segments clo) (g_context clo)
          (Some (foldl append_chunks (append_chunks ?buff1 ?r)
             (map (map (\<lambda>d. snd (expected_chunk d))) rest)))\<rparr>)"
    using Cons.IH[of ?r "Some ?buff1"] Cons.prems len1 by simp
  then show ?case
    using step by (simp add: consume_Yield)
qed

lemma reassembled_foldl:
  assumes "\<forall>b \<in> set (b1 # rest). length b = n"
  shows "foldl append_chunks (map (Pair sr) (map (\<lambda>d. snd (expected_chunk d)) b1))
           (map (map (\<lambda>d. snd (expected_chunk d))) rest)
         = reassembled n (map (map expected_chunk) (b1 # rest))"
proof -
  have "foldl append_chunks (map (Pair sr) (map (\<lambda>d. snd (expected_chunk d)) b1))
           (map (map (\<lambda>d. snd (expected_chunk d))) rest)
      = map (\<lambda>i. (fst (map (Pair sr) (map (\<lambda>d. snd (expected_chunk d)) b1) ! i),
                   snd (map (Pair sr) (map (\<lambda>d. snd (expected_chunk d)) b1) ! i)
                     @ concat (map (\<lambda>r. r ! i) (map (map (\<lambda>d. snd (expected_chunk d))) rest))))
          [0 ..< n]"
    by (rule foldl_append_chunks) (use assms in simp_all)
  also have "\<dots> = map (\<lambda>i. (24000, chunks_at i (map (map expected_chunk) (b1 # rest)))) [0 ..< n]"
  proof (rule map_cong[OF refl])
    fix i assume "i \<in> set [0 ..< n]"
    then have i: "i < n" by simp
    have "concat (map (\<lambda>r. r ! i) (map (map (\<lambda>d. snd (expected_chunk d))) rest))
            = concat (map (\<lambda>v. snd (v ! i)) (map (map expected_chunk) rest))"
      using assms i by (simp add: comp_def cong: map_cong)
    then show "(fst (map (Pair sr) (map (\<lambda>d. snd (expected_chunk d)) b1) ! i),
                   snd (map (Pair sr) (map (\<lambda>d. snd (expected_chunk d)) b1) ! i)
                     @ concat (map (\<lambda>r. r ! i) (map (map (\<lambda>d. snd (expected_chunk d))) rest)))
             = (24000, chunks_at i (map (map expected_chunk) (b1 # rest)))"
      using assms i by (simp add: chunks_at_def sr_def)
  qed
  finally show ?thesis by (simp add: reassembled_def)
qed

lemma demo_texts_kwargs:
  "demo_texts (infer_kwargs env seg0 segments ctx) = map seg_text segments"
  "demo_texts (infer_kwargs env seg0 segments ctx @ [(''stream_chunk_size'', v)]) = map seg_text segments"
  by (simp_all add: demo_texts_def infer_kwargs_args stream_kwargs_arg')

lemma demo_generate:
  "generate_audio demo_env sd kw = map (\<lambda>t. if t = [] then None else Some [t, t]) (demo_texts kw)"
  "generate_audio_stream demo_env sd kw =
        [map (\<lambda>t. if t = [] then None else Some [take 2 t, take 2 t]) (demo_texts kw),
         map (\<lambda>t. if t = [] then None else Some [drop 2 t, drop 2 t]) (demo_texts kw)]"
  "generate_audio_stream demo_env_silent sd kw = []"
  by (simp_all add: demo_env_def demo_env_silent_def)

lemma accumulate_fits:
  assumes "length results \<le> length buff"
  shows "\<exists>buff'. accumulate buff 0 results = Inr buff' \<and> length buff' = length buff"
  using accumulate_gen [of 0 results buff] assms by (simp add: append_chunks_def)

lemma consume_AtYield_exact:
  assumes "case buff of None \<Rightarrow> length results = n | Some b \<Rightarrow> length b = n"
  shows "\<exists>s'. consume env (StreamGen clo (AtYield rest buff results)) self
           = (if length results \<le> n
              then map (map expected_chunk)
                     (takeWhile (\<lambda>b. length b \<le> n) rest
                        @ take 1 (dropWhile (\<lambda>b. length b \<le> n) rest))
              else [],
              if length results \<le> n \<and> list_all (\<lambda>b. length b \<le> n) rest
              then Inr () else Inl IndexError,
              s')"
  using assms
proof (induction rest arbitrary: buff results self)
  case Nil
  show ?case
  proof (cases buff)
    case None
    then show ?thesis
      using Nil by (simp add: consume_Stop loop_head_Nil)
  next
    case (Some b)
    show ?thesis
    proof (cases "length results \<le> n")
      case True
      then obtain b' where "accumulate b 0 results = Inr b'"
        using accumulate_fits [of results b] Nil Some by auto
      then show ?thesis
        using Some True by (simp add: consume_Stop loop_head_Nil)
    next
      case False
      then have "accumulate b 0 results = Inl IndexError"
        using accumulate_too_long [of b 0 results] Nil Some by simp
      then show ?thesis
        using Some False by (simp add: consume_Raise)
    qed
  qed
next
  case (Cons r rest)
  let ?r = "map (\<lambda>d. snd (expected_chunk d)) r"
  show ?case
  proof (cases "length results \<le> n")
    case False
    then obtain b where b: "buff = Some b" "length b = n"
      using Cons.prems by (cases buff) simp_all
    then have "accumulate b 0 results = Inl IndexError"
      using accumulate_too_long [of b 0 results] False by simp
    then show ?thesis
      using b False by (simp add: consume_Raise)
  next
    case True
    have "\<exists>b'. length b' = n
             \<and> gen_next env (StreamGen clo (AtYield (r # rest) buff results)) self
                 = (Yield (map expected_chunk r), StreamGen clo (AtYield rest (Some b') ?r), self)"
    proof (cases buff)
      case None
      then show ?thesis
        using Cons.prems by (simp add: loop_head_Cons)
    next
      case (Some b)
      then obtain b' where "accumulate b 0 results = Inr b'" "length b' = n"
        using accumulate_fits [of results b] Cons.prems True by auto
      then show ?thesis
        using Some by (simp add: loop_head_Cons)
    qed
    then obtain b' where len: "length b' = n"
      and step: "gen_next env (StreamGen clo (AtYield (r # rest) buff results)) self
                 = (Yield (map expected_chunk r), StreamGen clo (AtYield rest (Some b') ?r), self)"
      by blast
    from Cons.IH [where buff = "Some b'" and results = ?r and self = self] len
    obtain s' where tail: "consume env (StreamGen clo (AtYield rest (Some b') ?r)) self
           = (if length r \<le> n
              then map (map expected_chunk)
                     (takeWhile (\<lambda>b. length b \<le> n) rest
                        @ take 1 (dropWhile (\<lambda>b. length b \<le> n) rest))
              else [],
              if length r \<le> n \<and> list_all (\<lambda>b. length b \<le> n) rest
              then Inr () else Inl IndexError,
              s')"
      by auto
    show ?thesis
      using True by (simp add: consume_Yield [OF step] tail)
  qed
qed

lemma consume_Start_exact:
  "\<exists>s'. consume env (StreamGen clo Start) self
     = (map (map expected_chunk) (delivered (generate_audio_stream env (g_seed clo) (g_kwargs clo))),
        stream_outcome (generate_audio_stream env (g_seed clo) (g_kwargs clo)), s')"
proof (cases "generate_audio_stream env (g_seed clo) (g_kwargs clo)")
  case Nil
  then show ?thesis
    by (simp add: consume_Start delivered_def stream_outcome_def)
next
  case (Cons b1 more)
  let ?self1 = "self\<lparr>calls := calls self @ [GenerateAudioStream (g_seed clo) (g_kwargs clo)]\<rparr>"
  from consume_AtYield_exact [where buff = None and n = "length b1" and rest = more
      and results = "map (\<lambda>d. snd (expected_chunk d)) b1" and env = env and clo = clo
      and self = ?self1]
  obtain s' where "consume env (StreamGen clo (AtYield more None (map (\<lambda>d. snd (expected_chunk d)) b1))) ?self1
           = (map (map expected_chunk)
                     (takeWhile (\<lambda>b. length b \<le> length b1) more
                        @ take 1 (dropWhile (\<lambda>b. length b \<le> length b1) more)),
              if list_all (\<lambda>b. length b \<le> length b1) more then Inr () else Inl IndexError,
              s')"
    by auto
  then show ?thesis
    using Cons by (simp add: consume_Start Let_def delivered_def stream_outcome_def)
qed

lemma delivered_uniform:
  assumes "\<forall>b \<in> set batches. length b = n"
  shows "delivered batches = batches" and "stream_outcome batches = Inr ()"
proof -
  show "delivered batches = batches"
  proof (cases batches)
    case Nil
    then show ?thesis by (simp add: delivered_def)
  next
    case (Cons b1 more)
    then have "\<forall>b \<in> set more. length b \<le> length b1"
      using assms by simp
    then have whole: "takeWhile (\<lambda>b. length b \<le> length b1) more = more"
      and none: "dropWhile (\<lambda>b. length b \<le> length b1) more = []"
      by simp_all
    show ?thesis
      unfolding Cons delivered_def by (simp add: whole none)
  qed
  show "stream_outcome batches = Inr ()"
  proof (cases batches)
    case Nil
    then show ?thesis by (simp add: stream_outcome_def)
  next
    case (Cons b1 more)
    then have "\<forall>b \<in> set batches. length b \<le> length b1"
      using assms by simp
    then show ?thesis
      using Cons by (simp add: stream_outcome_def list_all_iff)
  qed
qed

text \<open>
  Claim C5. On a cache miss without streaming, when every array the backend returns has at
  least one channel, the result is one pair per backend result, each with sample rate
  24000: empty audio where the backend returned the failure sentinel, the primary channel
  of the array otherwise; no error is raised. When streaming, the generator yields the
  batches of the backend stream in order, each with the failure sentinel (and an array
  without elements) replaced by empty audio and every other array by its primary channel:
  the first batch always, and all of them without an error when every batch has one slot
  per segment. Only a batch with more slots than the first one ends the generator, with
  an IndexError raised after that batch has been yielded.
\<close>

theorem failed_slots_become_empty_audio:
  assumes "get_cache env (cache self) (seg0 # rest) context = None"
    and "results = generate_audio env (infer_seed seg0) (infer_kwargs env seg0 (seg0 # rest) context)"
    and "\<forall>d \<in> set results. d \<noteq> Some []"
    and "batches = generate_audio_stream env (infer_seed seg0)
            (infer_kwargs env seg0 (seg0 # rest) context
               @ [(''stream_chunk_size'', VInt (stream_chunk_size (infer_config context)))])"
  shows "fst (generate_batch_base env self (seg0 # rest) context False)
           = Inr (Batch (map expected_slot results))
       \<and> length (map expected_slot results) = length results
       \<and> expected_slot None = (24000, [])
       \<and> (\<exists>g s s'. generate_batch_base env self (seg0 # rest) context True = (Inr (Stream g), s)
             \<and> consume env g self'
                 = (map (map expected_chunk) (delivered batches), stream_outcome batches, s'))
       \<and> take 1 (delivered batches) = take 1 batches
       \<and> ((\<forall>b \<in> set batches. length b = length (seg0 # rest))
            \<longrightarrow> delivered batches = batches \<and> stream_outcome batches = Inr ())
       \<and> expected_chunk None = (24000, [])"
proof -
  let ?clo = "\<lparr>g_seed = infer_seed seg0,
                 g_kwargs = infer_kwargs env seg0 (seg0 # rest) context
                    @ [(''stream_chunk_size'', VInt (stream_chunk_size (infer_config context)))],
                 g_segments = seg0 # rest, g_context = context\<rparr>"
  have batch: "fst (generate_batch_base env self (seg0 # rest) context False)
           = Inr (Batch (map expected_slot results))"
    using miss_batch_result[OF assms(1)] collect_slot_batch[OF assms(3)] assms(2) by simp
  obtain s' where "consume env (StreamGen ?clo Start) self'
      = (map (map expected_chunk) (delivered batches), stream_outcome batches, s')"
    using consume_Start_exact [of env ?clo self'] assms(4) by auto
  then have stream: "\<exists>g s s'. generate_batch_base env self (seg0 # rest) context True
                 = (Inr (Stream g), s)
             \<and> consume env g self'
                 = (map (map expected_chunk) (delivered batches), stream_outcome batches, s')"
    using miss_stream[OF assms(1)] by simp
  have first: "take 1 (delivered batches) = take 1 batches"
    by (cases batches) (simp_all add: delivered_def)
  have uniform: "(\<forall>b \<in> set batches. length b = length (seg0 # rest))
            \<longrightarrow> delivered batches = batches \<and> stream_outcome batches = Inr ()"
    using delivered_uniform [of batches "length (seg0 # rest)"] by blast
  show ?thesis
    using batch stream first uniform by (simp add: expected_slot_def expected_chunk_def)
qed

theorem failed_slots_become_empty_audio_witness:
  "get_cache demo_env (cache demo_cold)
       [demo_segment (py ''hi'') None, demo_segment [] None] demo_context = None
   \<and> fst (generate_batch_base demo_env demo_cold
             [demo_segment (py ''hi'') None, demo_segment [] None] demo_context False)
       = Inr (Batch [(24000, [104, 105]), (24000, [])])
   \<and> (\<exists>g s s'. generate_batch_base demo_env demo_cold
                [demo_segment (py ''hi'') None, demo_segment [] None] demo_context True
                = (Inr (Stream g), s)
          \<and> consume demo_env g demo_cold
              = ([[(24000, [104, 105]), (24000, [])], [(24000, []), (24000, [])]], Inr (), s'))"
proof -
  let ?segs = "[demo_segment (py ''hi'') None, demo_segment [] None]"
  let ?bs = "[[Some [[104, 105], [104, 105]], None], [Some [[], []], None]] :: nat list list option list list"
  have miss: "get_cache demo_env (cache demo_cold) ?segs demo_context = None"
    by (rule demo_miss)
  have texts: "map seg_text ?segs = [[104, 105], []]"
    by (simp add: demo_segment_def py_def)
  have results: "[Some [[104, 105], [104, 105]], None]
      = generate_audio demo_env (infer_seed (demo_segment (py ''hi'') None))
          (infer_kwargs demo_env (demo_segment (py ''hi'') None) ?segs demo_context)"
    by (simp only: demo_generate demo_texts_kwargs texts) simp
  have ok: "\<forall>d \<in> set [Some [[104, 105], [104, 105]], None]. d \<noteq> Some ([] :: nat list list)"
    by simp
  have batches: "?bs
      = generate_audio_stream demo_env (infer_seed (demo_segment (py ''hi'') None))
          (infer_kwargs demo_env (demo_segment (py ''hi'') None) ?segs demo_context
             @ [(''stream_chunk_size'', VInt (stream_chunk_size (infer_config demo_context)))])"
    by (simp only: demo_generate demo_texts_kwargs texts) simp
  have ev: "map expected_slot [Some [[104, 105], [104, 105]], None]
              = [(24000, [104, 105]), (24000, [] :: nat list)]"
    "map (map expected_chunk) (delivered ?bs)
       = [[(24000, [104, 105]), (24000, [])], [(24000, [] :: nat list), (24000, [])]]"
    "stream_outcome ?bs = Inr ()"
    by (simp_all add: expected_slot_def expected_chunk_def primary_channel_def nd_size_def
        delivered_def stream_outcome_def)
  show ?thesis
    using miss failed_slots_become_empty_audio [OF miss results ok batches, of demo_cold]
    unfolding ev by blast
qed

text \<open>
  Claim C6, as the code has it. On a cache miss with streaming, when the backend stream
  delivers at least one batch and every batch has one slot per segment, consuming the
  generator to its end yields every post-processed batch, raises nothing, and then writes
  to the cache, for the segments and the context of the call, one pair per segment index:
  sample rate 24000 and the concatenation, in yield order, of the audio yielded for that
  index.
\<close>

theorem stream_writes_reassembled_audio:
  assumes "get_cache env (cache self) (seg0 # rest) context = None"
    and "batches = generate_audio_stream env (infer_seed seg0)
            (infer_kwargs env seg0 (seg0 # rest) context
               @ [(''stream_chunk_size'', VInt (stream_chunk_size (infer_config context)))])"
    and "batches \<noteq> []"
    and "\<forall>b \<in> set batches. length b = length (seg0 # rest)"
  shows "\<exists>g s s'.
           generate_batch_base env self (seg0 # rest) context True = (Inr (Stream g), s)
         \<and> consume env g self' = (map (map expected_chunk) batches, Inr (), s')
         \<and> cache s' = set_cache env (cache self') (seg0 # rest) context
               (Some (reassembled (length (seg0 # rest)) (map (map expected_chunk) batches)))"
proof -
  let ?clo = "\<lparr>g_seed = infer_seed seg0,
                 g_kwargs = infer_kwargs env seg0 (seg0 # rest) context
                    @ [(''stream_chunk_size'', VInt (stream_chunk_size (infer_config context)))],
                 g_segments = seg0 # rest, g_context = context\<rparr>"
  let ?self1 = "self'\<lparr>calls := calls self' @ [GenerateAudioStream (g_seed ?clo) (g_kwargs ?clo)]\<rparr>"
  obtain b1 more where bs: "batches = b1 # more"
    using assms(3) by (cases batches) simp_all
  have stream: "generate_audio_stream env (g_seed ?clo) (g_kwargs ?clo) = b1 # more"
    using assms(2) bs by simp
  have uniform: "\<forall>b \<in> set (b1 # more). length b = length (seg0 # rest)"
    using assms(4) bs by simp
  have tail: "consume env (StreamGen ?clo (AtYield more None (map (\<lambda>d. snd (expected_chunk d)) b1))) ?self1
    = (map (map expected_chunk) more, Inr (),
       ?self1\<lparr>cache := set_cache env (cache ?self1) (g_segments ?clo) (g_context ?clo)
          (Some (foldl append_chunks (map (Pair sr) (map (\<lambda>d. snd (expected_chunk d)) b1))
             (map (map (\<lambda>d. snd (expected_chunk d))) more)))\<rparr>)"
    using consume_AtYield_uniform[of more "length (seg0 # rest)"
        "map (\<lambda>d. snd (expected_chunk d)) b1" None env ?clo ?self1] uniform
    by simp
  have "consume env (StreamGen ?clo Start) self'
    = (map (map expected_chunk) (b1 # more), Inr (),
       ?self1\<lparr>cache := set_cache env (cache self') (seg0 # rest) context
          (Some (reassembled (length (seg0 # rest)) (map (map expected_chunk) (b1 # more))))\<rparr>)"
    using stream tail reassembled_foldl[OF uniform]
    by (simp add: consume_Start Let_def)
  then show ?thesis
    using miss_stream[OF assms(1)] bs by simp
qed

theorem stream_writes_reassembled_audio_witness:
  "get_cache demo_env (cache demo_cold) [demo_segment (py ''hey'') None] demo_context = None
   \<and> (\<exists>g s s'.
         generate_batch_base demo_env demo_cold [demo_segment (py ''hey'') None] demo_context True
           = (Inr (Stream g), s)
       \<and> consume demo_env g demo_cold = ([[(24000, [104, 101])], [(24000, [121])]], Inr (), s')
       \<and> cache s' = [([py ''hey''], Some [(24000, [104, 101, 121])])])"
proof -
  let ?seg = "demo_segment (py ''hey'') None"
  let ?bs = "[[Some [[104, 101], [104, 101]]], [Some [[121 :: nat], [121]]]]"
  have miss: "get_cache demo_env (cache demo_cold) [?seg] demo_context = None"
    by (rule demo_miss)
  have texts: "map seg_text [?seg] = [[104, 101, 121]]"
    by (simp add: demo_segment_def py_def)
  have batches: "?bs
      = generate_audio_stream demo_env (infer_seed ?seg)
          (infer_kwargs demo_env ?seg [?seg] demo_context
             @ [(''stream_chunk_size'', VInt (stream_chunk_size (infer_config demo_context)))])"
    by (simp only: demo_generate demo_texts_kwargs texts) simp
  have ne: "?bs \<noteq> []" by simp
  have uniform: "\<forall>b \<in> set ?bs. length b = length [?seg]" by simp
  have ev: "map (map expected_chunk) ?bs = [[(24000, [104, 101])], [(24000, [121])]]"
    by (simp add: expected_chunk_def primary_channel_def nd_size_def)
  have re: "reassembled (length [?seg]) [[(24000, [104, 101])], [(24000, [121 :: nat])]]
              = [(24000, [104, 101, 121])]"
    by (simp add: reassembled_def chunks_at_def)
  have store: "set_cache demo_env (cache demo_cold) [?seg] demo_context v = [([py ''hey''], v)]" for v
    by (simp add: demo_env_def demo_cold_def init_def demo_segment_def)
  show ?thesis
    using miss stream_writes_reassembled_audio [OF miss batches ne uniform, of demo_cold]
    unfolding ev re store by blast
qed

text \<open>
  The claim speaks of every fully consumed streaming call. When the backend stream ends
  before its first batch, the buffer is still \<^verbatim>\<open>None\<close> at line 198: the generator yields
  nothing and the cache write carries \<^verbatim>\<open>None\<close>, not a list with one entry per segment.
\<close>

theorem silent_stream_counterexample:
  "generate_batch_base demo_env_silent demo_cold [demo_segment (py ''hi'') None] demo_context True
     = (Inr (Stream (StreamGen demo_closure Start)), start_infer demo_cold)
   \<and> fst (consume demo_env_silent (StreamGen demo_closure Start) (start_infer demo_cold)) = []
   \<and> cache (snd (snd (consume demo_env_silent (StreamGen demo_closure Start) (start_infer demo_cold))))
       = [([py ''hi''], None)]"
proof -
  let ?seg = "demo_segment (py ''hi'') None"
  have miss: "get_cache demo_env_silent (cache demo_cold) [?seg] demo_context = None"
    by (simp add: demo_env_silent_def demo_env_def demo_cold_def init_def)
  have strip: "py_strip (py ''calm'') \<noteq> []"
    by (simp add: py_def py_strip_def py_isspace_def)
  have kw: "infer_kwargs demo_env_silent ?seg [?seg] demo_context
              @ [(''stream_chunk_size'', VInt (stream_chunk_size (infer_config demo_context)))]
            = g_kwargs demo_closure"
    using strip
    by (simp add: infer_kwargs_def Let_def get_ref_wav_def demo_segment_def demo_closure_def
        demo_context_def opt_val_def terminate_txt_smp_def wrap_prompt2_def prompt_prefix_def
        prompt_suffix_def py_def)
  have clo: "\<lparr>g_seed = infer_seed ?seg,
             g_kwargs = infer_kwargs demo_env_silent ?seg [?seg] demo_context
               @ [(''stream_chunk_size'', VInt (stream_chunk_size (infer_config demo_context)))],
             g_segments = [?seg], g_context = demo_context\<rparr> = demo_closure"
    unfolding kw by (simp add: demo_closure_def demo_segment_def)
  have gen: "generate_batch_base demo_env_silent demo_cold [?seg] demo_context True
     = (Inr (Stream (StreamGen demo_closure Start)), start_infer demo_cold)"
    using miss_stream [OF miss] clo by simp
  have store: "set_cache demo_env_silent (cache (start_infer demo_cold)) (g_segments demo_closure)
                 (g_context demo_closure) None = [([py ''hi''], None)]"
    by (simp add: demo_env_silent_def demo_env_def demo_cold_def init_def demo_closure_def
        demo_segment_def start_infer_def get_infer_def load_def Let_def)
  show ?thesis
    using gen store by (simp add: consume_Start Let_def demo_generate)
qed

section \<open>Streaming against the blocking call\<close>

lemma expected_chunk_slice:
  "snd (expected_chunk (Some (slice pos n a))) = take n (drop pos (primary_channel a))"
  by (cases a) (auto simp: expected_chunk_def slice_def primary_channel_def nd_size_def)

lemma length_stream_of: "\<forall>b \<in> set (stream_of cuts pos full). length b = length full"
  by (induction cuts arbitrary: pos) simp_all

lemma pieces_concat:
  "i < length full \<Longrightarrow>
   concat (map (\<lambda>b. snd (expected_chunk (b ! i))) (stream_of cuts pos full))
     = (case full ! i of None \<Rightarrow> []
        | Some a \<Rightarrow> take (sum_list cuts) (drop pos (primary_channel a)))"
proof (induction cuts arbitrary: pos)
  case Nil
  then show ?case by (simp split: option.splits)
next
  case (Cons n cuts)
  show ?case
  proof (cases "full ! i")
    case None
    then show ?thesis
      using Cons by (simp add: expected_chunk_def)
  next
    case (Some a)
    have "take n (drop pos (primary_channel a))
            @ take (sum_list cuts) (drop (pos + n) (primary_channel a))
          = take (n + sum_list cuts) (drop pos (primary_channel a))"
      by (simp add: take_add add.commute)
    then show ?thesis
      using Cons Some by (simp add: expected_chunk_slice)
  qed
qed

lemma chunks_at_expected:
  "i < n \<Longrightarrow> \<forall>b \<in> set bs. length b = n \<Longrightarrow>
   chunks_at i (map (map expected_chunk) bs) = concat (map (\<lambda>b. snd (expected_chunk (b ! i))) bs)"
  by (simp add: chunks_at_def comp_def cong: map_cong)

lemma consume_uniform_values:
  assumes "\<forall>b \<in> set (generate_audio_stream env (g_seed clo) (g_kwargs clo)). length b = n"
  shows "\<exists>s'. consume env (StreamGen clo Start) self
           = (map (map expected_chunk) (generate_audio_stream env (g_seed clo) (g_kwargs clo)),
              Inr (), s')"
proof (cases "generate_audio_stream env (g_seed clo) (g_kwargs clo)")
  case Nil
  then show ?thesis by (simp add: consume_Start)
next
  case (Cons b1 more)
  then have "\<forall>b \<in> set more. length b = n" and "length (map (\<lambda>d. snd (expected_chunk d)) b1) = n"
    using assms by simp_all
  from consume_AtYield_uniform[OF this(1) this(2), of None env clo]
  show ?thesis
    using Cons by (simp add: consume_Start Let_def)
qed

text \<open>
  A consumer that reads each batch when it is yielded gets the audio of the blocking call:
  if the backend follows its streaming contract (the streaming entry point delivers the
  audio of the blocking entry point in consecutive pieces that cover it), the chunks
  yielded for a segment index, concatenated in yield order, are the audio the blocking
  call returns at that index.
\<close>

lemma chunks_read_when_yielded:
  assumes "get_cache env (cache self) (seg0 # rest) context = None"
    and "full = generate_audio env (infer_seed seg0) (infer_kwargs env seg0 (seg0 # rest) context)"
    and "generate_audio_stream env (infer_seed seg0)
            (infer_kwargs env seg0 (seg0 # rest) context
               @ [(''stream_chunk_size'', VInt (stream_chunk_size (infer_config context)))])
          = stream_of cuts 0 full"
    and "\<forall>d \<in> set full. d \<noteq> Some []"
    and "\<forall>a. Some a \<in> set full \<longrightarrow> length (primary_channel a) \<le> sum_list cuts"
  shows "\<exists>audio g s vs s'.
           fst (generate_batch_base env self (seg0 # rest) context False) = Inr (Batch audio)
         \<and> generate_batch_base env self (seg0 # rest) context True = (Inr (Stream g), s)
         \<and> consume env g self' = (vs, Inr (), s')
         \<and> length audio = length full
         \<and> (\<forall>i < length full. chunks_at i vs = snd (audio ! i))"
proof -
  let ?clo = "\<lparr>g_seed = infer_seed seg0,
                 g_kwargs = infer_kwargs env seg0 (seg0 # rest) context
                    @ [(''stream_chunk_size'', VInt (stream_chunk_size (infer_config context)))],
                 g_segments = seg0 # rest, g_context = context\<rparr>"
  have batch: "fst (generate_batch_base env self (seg0 # rest) context False)
                 = Inr (Batch (map expected_slot full))"
    using miss_batch_result[OF assms(1)] collect_slot_batch[OF assms(4)] assms(2) by simp
  have stream: "generate_audio_stream env (g_seed ?clo) (g_kwargs ?clo) = stream_of cuts 0 full"
    using assms(3) by simp
  have uniform: "\<forall>b \<in> set (stream_of cuts 0 full). length b = length full"
    by (rule length_stream_of)
  obtain s' where run: "consume env (StreamGen ?clo Start) self'
      = (map (map expected_chunk) (stream_of cuts 0 full), Inr (), s')"
    using consume_uniform_values[of env ?clo "length full" self'] uniform stream by auto
  have "chunks_at i (map (map expected_chunk) (stream_of cuts 0 full))
          = snd (map expected_slot full ! i)" if i: "i < length full" for i
  proof (cases "full ! i")
    case None
    then show ?thesis
      using i uniform by (simp add: chunks_at_expected pieces_concat expected_slot_def)
  next
    case (Some a)
    then have "Some a \<in> set full"
      using i by (metis nth_mem)
    then have "length (primary_channel a) \<le> sum_list cuts"
      using assms(5) by simp
    then show ?thesis
      using i uniform Some by (simp add: chunks_at_expected pieces_concat expected_slot_def)
  qed
  then show ?thesis
    using batch run miss_stream[OF assms(1)] by simp
qed

lemma accumulate_at_success:
  "a < length st \<Longrightarrow> accumulate (st ! a) i results = Inr buff' \<Longrightarrow>
   accumulate_at a i results st = (Inr (), st[a := buff'])"
proof (induction results arbitrary: st i)
  case Nil
  then have "buff' = st ! a" by simp
  then show ?case by simp
next
  case (Cons d results)
  from Cons.prems(2) have i: "i < length (st ! a)"
    by (simp split: if_splits)
  obtain s b where cell: "st ! a ! i = (s, b)"
    by (cases "st ! a ! i")
  let ?st = "st[a := (st ! a)[i := (s, b @ d)]]"
  have at: "?st ! a = (st ! a)[i := (s, b @ d)]"
    using Cons.prems(1) by simp
  have "accumulate (?st ! a) (Suc i) results = Inr buff'"
    using Cons.prems(2) i cell at by simp
  from Cons.IH [OF _ this] Cons.prems(1)
  have "accumulate_at a (Suc i) results ?st = (Inr (), ?st[a := buff'])"
    by simp
  then show ?case
    using i cell by simp
qed

lemma ref_drain_loop_head:
  assumes "ref_next env clo fr self st = ref_loop_head env clo rest (Some b) self st1"
    and "b < length st1" and "length (st1 ! b) = n" and "\<forall>r \<in> set rest. length r = n"
  shows "ref_drain env clo fr self st
    = ([length st1 ..< length st1 + length rest], Inr (),
       self\<lparr>cache := set_cache env (cache self) (g_segments clo) (g_context clo)
          (Some (foldl append_chunks (st1 ! b) (map (map (\<lambda>d. snd (expected_chunk d))) rest)))\<rparr>,
       st1[b := foldl append_chunks (st1 ! b) (map (map (\<lambda>d. snd (expected_chunk d))) rest)]
         @ map (map expected_chunk) rest)"
  using assms
proof (induction rest arbitrary: fr st st1)
  case Nil
  then show ?case
    by (simp add: ref_drain_Stop ref_loop_head_Nil)
next
  case (Cons r rest)
  let ?r = "map (\<lambda>d. snd (expected_chunk d)) r"
  let ?st2 = "st1 @ [map expected_chunk r]"
  let ?st3 = "?st2[b := append_chunks (st1 ! b) ?r]"
  have step: "ref_next env clo fr self st
                = (Yield (length st1), RAtYield rest (Some b) ?r (length st1), self, ?st2)"
    using Cons.prems(1) by (simp add: ref_loop_head_Cons)
  have b2: "b < length ?st2" and at2: "?st2 ! b = st1 ! b"
    using Cons.prems(2) by (simp_all add: nth_append)
  have "accumulate (?st2 ! b) 0 ?r = Inr (append_chunks (st1 ! b) ?r)"
    using Cons.prems(3,4) at2 by (simp add: accumulate_eq)
  from accumulate_at_success [OF b2 this]
  have next2: "ref_next env clo (RAtYield rest (Some b) ?r (length st1)) self ?st2
                 = ref_loop_head env clo rest (Some b) self ?st3"
    by (simp add: at2)
  have b3: "b < length ?st3" and at3: "?st3 ! b = append_chunks (st1 ! b) ?r"
    and len3: "length ?st3 = Suc (length st1)"
    using Cons.prems(2) by simp_all
  have n3: "length (?st3 ! b) = n"
    using Cons.prems(3,4) at3 by (simp add: length_append_chunks)
  have rest_n: "\<forall>r \<in> set rest. length r = n"
    using Cons.prems(4) by simp
  let ?F = "foldl append_chunks (append_chunks (st1 ! b) ?r)
              (map (map (\<lambda>d. snd (expected_chunk d))) rest)"
  have upd: "?st3[b := ?F] = st1[b := ?F] @ [map expected_chunk r]"
    using Cons.prems(2) by (simp add: list_update_append1)
  have "ref_drain env clo (RAtYield rest (Some b) ?r (length st1)) self ?st2
    = ([length ?st3 ..< length ?st3 + length rest], Inr (),
       self\<lparr>cache := set_cache env (cache self) (g_segments clo) (g_context clo)
          (Some (foldl append_chunks (?st3 ! b) (map (map (\<lambda>d. snd (expected_chunk d))) rest)))\<rparr>,
       ?st3[b := foldl append_chunks (?st3 ! b) (map (map (\<lambda>d. snd (expected_chunk d))) rest)]
         @ map (map expected_chunk) rest)"
    by (rule Cons.IH [OF next2 b3 n3 rest_n])
  then have tail: "ref_drain env clo (RAtYield rest (Some b) ?r (length st1)) self ?st2
    = ([Suc (length st1) ..< Suc (length st1) + length rest], Inr (),
       self\<lparr>cache := set_cache env (cache self) (g_segments clo) (g_context clo) (Some ?F)\<rparr>,
       (st1[b := ?F] @ [map expected_chunk r]) @ map (map expected_chunk) rest)"
    unfolding at3 len3 upd .
  have idx: "[length st1 ..< length st1 + length (r # rest)]
               = length st1 # [Suc (length st1) ..< Suc (length st1) + length rest]"
    by (simp add: upt_rec [of "length st1"] del: upt_Suc)
  show ?case
    unfolding ref_drain_Yield [OF step] tail idx by simp
qed

lemma read_all: "map (\<lambda>a. (x # xs) ! a) (0 # [1 ..< 1 + length xs]) = x # xs"
proof -
  have "[1 ..< 1 + length xs] = map Suc [0 ..< length xs]"
    by (simp add: map_Suc_upt del: upt_Suc)
  then show ?thesis
    by (simp add: comp_def map_nth del: upt_Suc)
qed

text \<open>
  What \<^verbatim>\<open>list(gen)\<close> holds once the streaming generator has run to its end, when the backend
  stream has at least one batch and every batch has the same number of slots: the first
  list is the buffer, which by then holds, for every segment index, all the audio of that
  index; the later lists are as they were yielded. So the chunks of the later batches are
  there twice.
\<close>

lemma list_stream_uniform:
  assumes "generate_audio_stream env (g_seed clo) (g_kwargs clo) = b1 # later"
    and "\<forall>b \<in> set (b1 # later). length b = n"
  shows "fst (list_stream env clo self)
    = Inr (reassembled n (map (map expected_chunk) (b1 # later)) # map (map expected_chunk) later)"
proof -
  let ?self1 = "self\<lparr>calls := calls self @ [GenerateAudioStream (g_seed clo) (g_kwargs clo)]\<rparr>"
  let ?r1 = "map (\<lambda>d. snd (expected_chunk d)) b1"
  let ?st = "[map expected_chunk b1]"
  let ?final = "foldl append_chunks (map expected_chunk b1)
                  (map (map (\<lambda>d. snd (expected_chunk d))) later)"
  have first: "ref_next env clo RStart self []
                 = (Yield 0, RAtYield later None ?r1 0, ?self1, ?st)"
    using assms(1) by (simp add: ref_loop_head_Cons)
  have second: "ref_next env clo (RAtYield later None ?r1 0) ?self1 ?st
                  = ref_loop_head env clo later (Some 0) ?self1 ?st"
    by simp
  have "ref_drain env clo (RAtYield later None ?r1 0) ?self1 ?st
    = ([length ?st ..< length ?st + length later], Inr (),
       ?self1\<lparr>cache := set_cache env (cache ?self1) (g_segments clo) (g_context clo)
          (Some (foldl append_chunks (?st ! 0) (map (map (\<lambda>d. snd (expected_chunk d))) later)))\<rparr>,
       ?st[0 := foldl append_chunks (?st ! 0) (map (map (\<lambda>d. snd (expected_chunk d))) later)]
         @ map (map expected_chunk) later)"
    by (rule ref_drain_loop_head [OF second, where n = n]) (use assms(2) in simp_all)
  then have drained: "ref_drain env clo RStart self []
    = (0 # [1 ..< 1 + length later], Inr (),
       ?self1\<lparr>cache := set_cache env (cache ?self1) (g_segments clo) (g_context clo) (Some ?final)\<rparr>,
       ?final # map (map expected_chunk) later)"
    by (simp add: ref_drain_Yield [OF first])
  have final: "?final = reassembled n (map (map expected_chunk) (b1 # later))"
    using reassembled_foldl [OF assms(2)] by (simp add: comp_def Pair_sr_expected_chunk)
  have read: "map (\<lambda>a. (?final # map (map expected_chunk) later) ! a) (0 # [1 ..< 1 + length later])
                = ?final # map (map expected_chunk) later"
    using read_all [of ?final "map (map expected_chunk) later"] by simp
  have "fst (list_stream env clo self) = Inr (?final # map (map expected_chunk) later)"
    unfolding list_stream_def drained using read by (simp del: upt_Suc)
  then show ?thesis
    unfolding final .
qed

lemma list_stream_counts_twice:
  assumes "generate_audio_stream env (g_seed clo) (g_kwargs clo) = b1 # later"
    and "\<forall>b \<in> set (b1 # later). length b = n" and "i < n"
    and "fst (list_stream env clo self) = Inr held"
  shows "chunks_at i held
           = chunks_at i (map (map expected_chunk) (b1 # later))
               @ chunks_at i (map (map expected_chunk) later)"
proof -
  have "held = reassembled n (map (map expected_chunk) (b1 # later)) # map (map expected_chunk) later"
    using list_stream_uniform [OF assms(1,2), of self] assms(4) by simp
  moreover have "snd (reassembled n vs ! i) = chunks_at i vs" for vs :: "'a NP_AUDIO list list"
    using assms(3) by (simp add: reassembled_def)
  ultimately show ?thesis
    by (simp add: chunks_at_def)
qed

lemma demo_hey:
  "generate_batch_base demo_env demo_cold [demo_segment (py ''hey'') None] demo_context True
     = (Inr (Stream (StreamGen demo_closure_hey Start)), start_infer demo_cold)"
  "generate_audio_stream demo_env (g_seed demo_closure_hey) (g_kwargs demo_closure_hey)
     = [[Some [[104, 101], [104, 101]]], [Some [[121], [121]]]]"
  "fst (generate_batch_base demo_env demo_cold [demo_segment (py ''hey'') None] demo_context False)
     = Inr (Batch [(24000, [104, 101, 121])])"
proof -
  let ?seg = "demo_segment (py ''hey'') None"
  have miss: "get_cache demo_env (cache demo_cold) [?seg] demo_context = None"
    by (rule demo_miss)
  have strip: "py_strip (py ''calm'') \<noteq> []"
    by (simp add: py_def py_strip_def py_isspace_def)
  have kw: "infer_kwargs demo_env ?seg [?seg] demo_context
              @ [(''stream_chunk_size'', VInt (stream_chunk_size (infer_config demo_context)))]
            = g_kwargs demo_closure_hey"
    using strip
    by (simp add: infer_kwargs_def Let_def get_ref_wav_def demo_segment_def demo_closure_hey_def
        demo_context_def opt_val_def terminate_txt_smp_def wrap_prompt2_def prompt_prefix_def
        prompt_suffix_def py_def)
  have clo: "\<lparr>g_seed = infer_seed ?seg,
             g_kwargs = infer_kwargs demo_env ?seg [?seg] demo_context
               @ [(''stream_chunk_size'', VInt (stream_chunk_size (infer_config demo_context)))],
             g_segments = [?seg], g_context = demo_context\<rparr> = demo_closure_hey"
    unfolding kw by (simp add: demo_closure_hey_def demo_segment_def)
  show "generate_batch_base demo_env demo_cold [?seg] demo_context True
     = (Inr (Stream (StreamGen demo_closure_hey Start)), start_infer demo_cold)"
    using miss_stream [OF miss] clo by simp
  have texts: "demo_texts (g_kwargs demo_closure_hey) = [[104, 101, 121]]"
    by (simp add: demo_texts_def demo_closure_hey_def py_def)
  show "generate_audio_stream demo_env (g_seed demo_closure_hey) (g_kwargs demo_closure_hey)
     = [[Some [[104, 101], [104, 101]]], [Some [[121], [121]]]]"
    by (simp only: demo_generate texts) simp
  have seg_texts: "map seg_text [?seg] = [[104, 101, 121]]"
    by (simp add: demo_segment_def py_def)
  have "generate_audio demo_env (infer_seed ?seg) (infer_kwargs demo_env ?seg [?seg] demo_context)
          = [Some [[104, 101, 121], [104, 101, 121]]]"
    by (simp only: demo_generate demo_texts_kwargs seg_texts) simp
  then show "fst (generate_batch_base demo_env demo_cold [?seg] demo_context False)
     = Inr (Batch [(24000, [104, 101, 121])])"
    using miss_batch_result [OF miss]
    by (simp add: slot_batch_def index0_def sr_def)
qed

text \<open>
  Claim C7. The claim asks that the chunks yielded for a segment index, concatenated over
  a fully consumed streaming call, be the audio of the non-streaming call. The first list
  the generator yields is also its buffer: once the generator has run to its end that
  list holds the whole audio, and the chunks of the later batches are counted twice. For
  the one-segment batch "hey", streamed in the two batches "he" and "y", a consumer that
  reads each batch on arrival sees the chunks "he" and "y"; \<^verbatim>\<open>list(gen)\<close> holds "hey" and "y",
  whose concatenation is "heyy", while the non-streaming call returns "hey".
\<close>

theorem collected_chunks_repeat_audio:
  "generate_batch_base demo_env demo_cold [demo_segment (py ''hey'') None] demo_context True
     = (Inr (Stream (StreamGen demo_closure_hey Start)), start_infer demo_cold)
   \<and> fst (consume demo_env (StreamGen demo_closure_hey Start) (start_infer demo_cold))
       = [[(24000, [104, 101])], [(24000, [121])]]
   \<and> fst (list_stream demo_env demo_closure_hey (start_infer demo_cold))
       = Inr [[(24000, [104, 101, 121])], [(24000, [121])]]
   \<and> chunks_at 0 [[(24000, [104, 101, 121])], [(24000, [121 :: nat])]] = [104, 101, 121, 121]
   \<and> fst (generate_batch_base demo_env demo_cold [demo_segment (py ''hey'') None]
             demo_context False)
       = Inr (Batch [(24000, [104, 101, 121])])"
proof -
  have ev: "expected_chunk (Some [[104, 101], [104, 101 :: nat]]) = (24000, [104, 101])"
    "expected_chunk (Some [[121], [121 :: nat]]) = (24000, [121])"
    by (simp_all add: expected_chunk_def primary_channel_def nd_size_def)
  have read: "fst (consume demo_env (StreamGen demo_closure_hey Start) (start_infer demo_cold))
       = [[(24000, [104, 101])], [(24000, [121])]]"
    by (simp add: consume_Start demo_hey(2) Let_def ev consume_Yield consume_Stop
        loop_head_Cons loop_head_Nil sr_def split: prod.splits)
  have held: "fst (list_stream demo_env demo_closure_hey (start_infer demo_cold))
       = Inr [[(24000, [104, 101, 121])], [(24000, [121])]]"
    by (simp add: list_stream_def ref_drain_Yield ref_drain_Stop demo_hey(2) ev
        ref_loop_head_Cons ref_loop_head_Nil)
  have twice: "chunks_at 0 [[(24000, [104, 101, 121])], [(24000, [121 :: nat])]] = [104, 101, 121, 121]"
    by (simp add: chunks_at_def)
  show ?thesis
    using demo_hey(1) read held twice demo_hey(3) by (intro conjI)
qed

section \<open>Cache hits\<close>

text \<open>
  Claim C1. When the cache holds a value for the segments and the context,
  \<^verbatim>\<open>generate_batch_base\<close> returns it and leaves the model as it was: no backend object is
  created, none is recorded as current, and no backend call is made. Without streaming the
  cached list is the result; with streaming the result is a generator whose first
  \<^verbatim>\<open>next()\<close> yields the cached list and whose second one stops, again without any effect on
  the model.
\<close>

theorem cache_hit_returns_cached:
  assumes "get_cache env (cache self) segments context = Some cached"
  shows "generate_batch_base env self segments context False = (Inr (Batch cached), self)
       \<and> (\<exists>g g'. generate_batch_base env self segments context True = (Inr (Stream g), self)
            \<and> gen_next env g self' = (Yield cached, g', self')
            \<and> gen_next env g' self' = (StopIteration, g', self')
            \<and> consume env g self' = ([cached], Inr (), self'))"
  using assms by (simp add: generate_batch_base_def consume_Yield consume_Stop)

theorem cache_hit_returns_cached_witness:
  "get_cache demo_env (cache demo_warm) [demo_segment (py ''hi'') None] demo_context
     = Some demo_cached
   \<and> generate_batch_base demo_env demo_warm [demo_segment (py ''hi'') None] demo_context False
     = (Inr (Batch demo_cached), demo_warm)
   \<and> (\<exists>g g'. generate_batch_base demo_env demo_warm [demo_segment (py ''hi'') None]
                 demo_context True = (Inr (Stream g), demo_warm)
            \<and> gen_next demo_env g demo_warm = (Yield demo_cached, g', demo_warm)
            \<and> gen_next demo_env g' demo_warm = (StopIteration, g', demo_warm)
            \<and> consume demo_env g demo_warm = ([demo_cached], Inr (), demo_warm))"
proof -
  have hit: "get_cache demo_env (cache demo_warm) [demo_segment (py ''hi'') None] demo_context
               = Some demo_cached"
    by (simp add: demo_env_def demo_warm_def init_def demo_segment_def)
  show ?thesis
    using hit cache_hit_returns_cached [OF hit, of demo_warm] by simp
qed

section \<open>Interrupting\<close>

text \<open>
  Claim C8. The claim asks that \<^verbatim>\<open>interrupt()\<close> without an active operation be a no-op or
  raise a dedicated error. On a model that has not created a backend object the method
  dereferences \<^verbatim>\<open>None\<close>: the outcome is the AttributeError of the attribute lookup.
\<close>

theorem interrupt_without_backend:
  "interrupt (init c) = (Inl AttributeError, init c)"
  by (simp add: interrupt_def init_def)

section \<open>The seed of the web UI entry point is clamped\<close>

lemma clip_of_int:
  "min (max (real_of_int i) (- 1)) (2 ^ 32 - 1) = real_of_int (max (- 1) (min (2 ^ 32 - 1) i))"
  by (simp add: min_def max_def)

lemma trunc_of_int:
  "(if 0 \<le> real_of_int k then \<lfloor>real_of_int k\<rfloor> else - \<lfloor>- real_of_int k\<rfloor>) = k"
proof -
  have "- real_of_int k = real_of_int (- k)"
    by simp
  then have "\<lfloor>- real_of_int k\<rfloor> = - k"
    by (simp only: floor_of_int)
  then show ?thesis
    by simp
qed

lemma seed_of_int:
  assumes "- (2 ^ 63) \<le> i" and "i < 2 ^ 64"
  shows "(case np_clip (PyInt i) (- 1) (2 ^ 32 - 1) of Inl e \<Rightarrow> Inl e | Inr c \<Rightarrow> py_int c)
           = Inr (max (- 1) (min (2 ^ 32 - 1) i))"
proof -
  have "np_clip (PyInt i) (- 1) (2 ^ 32 - 1)
          = Inr (Finite (real_of_int (max (- 1) (min (2 ^ 32 - 1) i))))"
    using assms by (simp only: np_clip.simps clip_of_int) simp
  then show ?thesis
    by (simp only: sum.case py_int.simps trunc_of_int)
qed

lemma seed_of_finite:
  "(case np_clip (PyFloat (Finite r)) (- 1) (2 ^ 32 - 1) of Inl e \<Rightarrow> Inl e | Inr c \<Rightarrow> py_int c)
     = Inr (clamped_seed (PyFloat (Finite r)))"
proof -
  consider (low) "r \<le> - 1" | (high) "\<not> r \<le> - 1" "2 ^ 32 - 1 \<le> r"
    | (mid) "\<not> r \<le> - 1" "\<not> 2 ^ 32 - 1 \<le> r"
    by blast
  then show ?thesis
  proof cases
    case low
    then have "min (max r (- 1)) (2 ^ 32 - 1) = - 1"
      by (simp add: min_def max_def)
    then show ?thesis
      using low by simp
  next
    case high
    then have "min (max r (- 1)) (2 ^ 32 - 1) = 2 ^ 32 - 1"
      by (simp add: min_def max_def)
    then show ?thesis
      using high by simp
  next
    case mid
    then have "min (max r (- 1)) (2 ^ 32 - 1) = r"
      by (simp add: min_def max_def)
    then show ?thesis
      using mid by (simp add: ceiling_def)
  qed
qed

lemma clamped_seed_range: "- 1 \<le> clamped_seed v \<and> clamped_seed v \<le> 2 ^ 32 - 1"
proof (induction v rule: clamped_seed.induct)
  case (2 r)
  show ?case
  proof (cases "r \<le> - 1 \<or> 2 ^ 32 - 1 \<le> r")
    case True
    then show ?thesis by auto
  next
    case False
    then have lo: "- 1 < r" and hi: "r < 2 ^ 32 - 1"
      by simp_all
    have "\<lfloor>r\<rfloor> \<le> \<lfloor>2 ^ 32 - 1 :: real\<rfloor>"
      using hi by (intro floor_mono) simp
    then have up: "\<lfloor>r\<rfloor> \<le> 2 ^ 32 - 1"
      by simp
    have down: "- 1 \<le> \<lceil>r\<rceil>"
      using lo by (simp add: le_ceiling_iff)
    have neg: "\<lceil>r\<rceil> \<le> 0" if "\<not> 0 \<le> r"
      using that by (simp add: ceiling_le_iff)
    have pos: "0 \<le> \<lfloor>r\<rfloor>" if "0 \<le> r"
      using that by simp
    have big: "(0 :: int) \<le> 2 ^ 32 - 1"
      by simp
    show ?thesis
    proof (cases "0 \<le> r")
      case True
      have "clamped_seed (PyFloat (Finite r)) = \<lfloor>r\<rfloor>"
        using lo hi True by simp
      then show ?thesis
        using up pos [OF True] by linarith
    next
      case negative: False
      have "clamped_seed (PyFloat (Finite r)) = \<lceil>r\<rceil>"
        using lo hi negative by simp
      then show ?thesis
        using down neg [OF negative] big by linarith
    qed
  qed
qed simp_all

text \<open>
  Claim C10, as the code has it. The number that is clamped is \<^verbatim>\<open>infer_seed\<close>, or the seed
  of the selected style when \<^verbatim>\<open>infer_seed\<close> is zero and the style has one. When that number
  is a float other than NaN or an integer that fits 64 bits, the seed handed to the
  inference configuration is the number clamped into the interval from -1 to 2^32 - 1:
  an integer of the interval is kept, a number outside becomes the nearer bound, and a
  float with a fraction is truncated towards zero.
\<close>

theorem tts_generate_seed_clamped:
  assumes "v = seed_or_params x p" and "clippable v"
  shows "tts_generate_infer_seed x p = Inr (clamped_seed v)
       \<and> - 1 \<le> clamped_seed v \<and> clamped_seed v \<le> 2 ^ 32 - 1
       \<and> (\<forall>i. v = PyInt i \<longrightarrow> - 1 \<le> i \<longrightarrow> i \<le> 2 ^ 32 - 1 \<longrightarrow> clamped_seed v = i)
       \<and> (truthy x \<longrightarrow> v = x)"
proof -
  have stored: "tts_generate_infer_seed x p = Inr (clamped_seed v)"
  proof (cases v)
    case (PyInt i)
    then show ?thesis
      using assms seed_of_int [of i] by (simp add: tts_generate_infer_seed_def)
  next
    case (PyFloat f)
    show ?thesis
    proof (cases f)
      case (Finite r)
      then show ?thesis
        using PyFloat assms(1) seed_of_finite [of r]
        by (simp only: tts_generate_infer_seed_def)
    next
      case PosInf
      then show ?thesis
        using PyFloat assms(1) by (simp add: tts_generate_infer_seed_def)
    next
      case NegInf
      then show ?thesis
        using PyFloat assms(1) by (simp add: tts_generate_infer_seed_def)
    next
      case NaN
      then show ?thesis
        using PyFloat assms(2) by simp
    qed
  qed
  have kept: "\<forall>i. v = PyInt i \<longrightarrow> - 1 \<le> i \<longrightarrow> i \<le> 2 ^ 32 - 1 \<longrightarrow> clamped_seed v = i"
    by auto
  have same: "truthy x \<longrightarrow> v = x"
    using assms(1) by (simp add: seed_or_params_def)
  show ?thesis
    using stored clamped_seed_range [of v] kept same by blast
qed

theorem tts_generate_seed_clamped_witness:
  "tts_generate_infer_seed (PyInt 42) None = Inr 42
   \<and> tts_generate_infer_seed (PyInt 5000000000) None = Inr 4294967295
   \<and> tts_generate_infer_seed (PyInt (- 7)) None = Inr (- 1)
   \<and> tts_generate_infer_seed (PyFloat (Finite (5 / 2))) None = Inr 2
   \<and> tts_generate_infer_seed (PyInt 0) (Some (PyInt 7)) = Inr 7"
proof -
  have a: "PyInt 42 = seed_or_params (PyInt 42) None" "clippable (PyInt 42)"
    and b: "PyInt 5000000000 = seed_or_params (PyInt 5000000000) None" "clippable (PyInt 5000000000)"
    and c: "PyInt (- 7) = seed_or_params (PyInt (- 7)) None" "clippable (PyInt (- 7))"
    and d: "PyFloat (Finite (5 / 2)) = seed_or_params (PyFloat (Finite (5 / 2))) None"
      "clippable (PyFloat (Finite (5 / 2)))"
    and e: "PyInt 7 = seed_or_params (PyInt 0) (Some (PyInt 7))" "clippable (PyInt 7)"
    by (simp_all add: seed_or_params_def)
  show ?thesis
    using tts_generate_seed_clamped [OF a] tts_generate_seed_clamped [OF b]
      tts_generate_seed_clamped [OF c] tts_generate_seed_clamped [OF d]
      tts_generate_seed_clamped [OF e]
    by simp
qed

text \<open>
  The claim speaks of every numeric argument. An integer that does not fit 64 bits and
  NaN are numbers for which no seed is stored: the first makes \<^verbatim>\<open>np.clip\<close> raise, the second
  \<^verbatim>\<open>int\<close>. And the number clamped is not always the argument: a zero gives way to the seed
  of the style.
\<close>

theorem seed_not_clamped_counterexample:
  "tts_generate_infer_seed (PyInt (2 ^ 64)) None = Inl TypeError
   \<and> tts_generate_infer_seed (PyFloat NaN) None = Inl ValueError
   \<and> tts_generate_infer_seed (PyInt 0) (Some (PyInt 42)) = Inr 42"
  by (simp add: tts_generate_infer_seed_def seed_or_params_def)

end
